theory Spec2Isabelle
  imports Main "HOL-Library.Word" "HOL-Library.Signed_Division" "HOL-Library.Sublist"
begin

unbundle bit_operations_syntax

section \<open>The event pipeline of tracee (pipeline.go)\<close>

text \<open>
  The embedding follows \<^verbatim>\<open>src/tracee/pipeline.go\<close>. Each pipeline stage is a goroutine
  running one \<^verbatim>\<open>for ... range\<close> loop over its input channel; the body of that loop is a
  function here (\<open>decodeRawEvent_body\<close>, \<open>processRawEvent_body\<close>,
  \<open>prepareEventForPrint_body\<close>; the body of the sink's loop is the \<open>Print\<close> step), and the
  goroutines with their channels are the step function \<open>step\<close> on a pipeline state
  further down.

  Functions and types that pipeline.go uses but does not declare (the \<^verbatim>\<open>context\<close> struct,
  \<^verbatim>\<open>argTag\<close>, \<^verbatim>\<open>readArgFromBuff\<close>, the policy predicates and hooks of \<^verbatim>\<open>Tracee\<close>,
  \<^verbatim>\<open>DecParamName\<close>, the BPF module's maps, \<^verbatim>\<open>newEvent\<close>) are parameters, collected
  in the record \<open>Tracee\<close>; the two types are modelled from what the spec says of them.
\<close>

subsection \<open>Data\<close>

type_synonym byte = "8 word"

text \<open>A Go \<^verbatim>\<open>error\<close> value is represented by its message.\<close>

type_synonym error = string

text \<open>
  Modelled from the spec: the declaration of \<^verbatim>\<open>argTag\<close> is not in pipeline.go. The spec
  calls it a small fixed-size opaque identifier; it is a byte here, and its zero value (what
  \<^verbatim>\<open>make([]argTag, n)\<close> fills a slice with) is \<open>0\<close>.
\<close>

type_synonym argTag = "8 word"

text \<open>
  Modelled from the spec: the declaration of \<^verbatim>\<open>context\<close> is not in pipeline.go. The fields
  are the three that pipeline.go reads (\<^verbatim>\<open>EventID\<close>, \<^verbatim>\<open>Argnum\<close>, \<^verbatim>\<open>StackID\<close>, a
  \<^verbatim>\<open>[4]byte\<close>) and the pass-through metadata the spec names (timestamp, process and
  thread id). \<^verbatim>\<open>EventID\<close> is an integer printed with \<^verbatim>\<open>%d\<close>; its width and
  signedness are not visible, so it is an \<open>int\<close>. \<^verbatim>\<open>Argnum\<close> is a count that the
  code converts with \<^verbatim>\<open>int(ctx.Argnum)\<close> and passes to \<^verbatim>\<open>make\<close>; it is a \<open>nat\<close>.
\<close>

record "context" =
  Ts :: nat
  Pid :: nat
  Tid :: nat
  EventID :: int
  Argnum :: nat
  StackID :: "byte list"

text \<open>
  \<^verbatim>\<open>type RawEvent struct { Ctx context; RawArgs map[argTag]interface{}; ArgsTags []argTag }\<close>.
  The decoded values (\<^verbatim>\<open>interface{}\<close>) are of an arbitrary type \<open>'v\<close>.
\<close>

record 'v RawEvent =
  Ctx :: "context"
  RawArgs :: "argTag \<rightharpoonup> 'v"
  ArgsTags :: "argTag list"

text \<open>Runtime panics of Go that the code of pipeline.go can reach.\<close>

datatype panic = IndexOutOfRange | SliceBoundsOutOfRange

text \<open>\<^verbatim>\<open>strconv.IntSize\<close> is 32 or 64, by the platform the program is compiled for.\<close>

datatype platform = Int32 | Int64

fun IntSize :: "platform \<Rightarrow> nat" where
  "IntSize Int32 = 32"
| "IntSize Int64 = 64"

text \<open>
  The collaborators of the pipeline. \<open>'s\<close> is the state of the \<^verbatim>\<open>Tracee\<close> object that the
  hooks may change, \<open>'v\<close> the type of argument values, \<open>'e\<close> the type \<^verbatim>\<open>Event\<close>.
  \<^item> \<open>readContext\<close>: \<^verbatim>\<open>binary.Read(dataBuff, binary.LittleEndian, &ctx)\<close>, an error or the
    header with the rest of the buffer;
  \<^item> \<open>readArgFromBuff\<close>: a tag and a value, or an error, and in both cases the buffer as the
    call leaves it (the cursor is shared by the calls of one event);
  \<^item> \<open>processEvent\<close>, \<open>prepareArgsForPrint\<close>: the hooks get \<^verbatim>\<open>&rawEvent.Ctx\<close> and the map
    \<^verbatim>\<open>rawEvent.RawArgs\<close> and change both in place; they return the new state, header and
    map, and \<open>Some err\<close> for a non-nil error;
  \<^item> \<open>DecParamName\<close>: \<^verbatim>\<open>t.DecParamName[sel][tag]\<close> with its \<^verbatim>\<open>ok\<close> flag, for every
    selector \<open>sel\<close> (the declaration of the field is not in pipeline.go, so what the
    index expression does for a selector that the table does not have is not visible);
  \<^item> \<open>GetMap\<close>: \<^verbatim>\<open>t.bpfModule.GetMap(name)\<close>, an error or the map, given by its
    \<^verbatim>\<open>GetValue(key, size)\<close>;
  \<^item> \<open>newEvent\<close>: an error or the event;
  \<^item> \<open>strconv\<close>: the platform, which fixes \<^verbatim>\<open>strconv.IntSize\<close>.
  The predicates and hooks are functions of their arguments and of the state.
\<close>

record ('s, 'v, 'e) Tracee =
  readContext :: "byte list \<Rightarrow> error + context \<times> byte list"
  readArgFromBuff :: "byte list \<Rightarrow> (error + argTag \<times> 'v) \<times> byte list"
  shouldProcessEvent :: "'s \<Rightarrow> 'v RawEvent \<Rightarrow> bool"
  processEvent :: "'s \<Rightarrow> context \<Rightarrow> (argTag \<rightharpoonup> 'v) \<Rightarrow> 's \<times> context \<times> (argTag \<rightharpoonup> 'v) \<times> error option"
  shouldPrintEvent :: "'s \<Rightarrow> 'v RawEvent \<Rightarrow> bool"
  prepareArgsForPrint :: "'s \<Rightarrow> context \<Rightarrow> (argTag \<rightharpoonup> 'v) \<Rightarrow> 's \<times> context \<times> (argTag \<rightharpoonup> 'v) \<times> error option"
  DecParamName :: "int \<Rightarrow> argTag \<rightharpoonup> string"
  GetMap :: "string \<Rightarrow> error + (byte list \<Rightarrow> nat \<Rightarrow> error + byte list)"
  newEvent :: "context \<Rightarrow> string list \<Rightarrow> 'v option list \<Rightarrow> string \<Rightarrow> error + 'e"
  strconv :: platform

subsection \<open>decodeRawEvent\<close>

text \<open>
  The inner loop \<^verbatim>\<open>for i := 0; i < int(ctx.Argnum); i++\<close> (lines 67 to 75), over the list of
  its indices. The state is the buffer cursor, \<^verbatim>\<open>rawArgs\<close>, \<^verbatim>\<open>argsTags\<close> and the errors
  sent on \<^verbatim>\<open>errc\<close> so far. A failed read sends the error and goes on with the next index
  (\<^verbatim>\<open>continue\<close>), from the buffer as the failed read left it.
\<close>

fun readArgs ::
  "(byte list \<Rightarrow> (error + argTag \<times> 'v) \<times> byte list) \<Rightarrow> nat list \<Rightarrow>
   byte list \<times> (argTag \<rightharpoonup> 'v) \<times> argTag list \<times> error list \<Rightarrow>
   panic + byte list \<times> (argTag \<rightharpoonup> 'v) \<times> argTag list \<times> error list" where
  "readArgs rd [] st = Inr st"
| "readArgs rd (i # is) (dataBuff, rawArgs, argsTags, errs) =
     (case rd dataBuff of
        (Inl err, dataBuff') \<Rightarrow> readArgs rd is (dataBuff', rawArgs, argsTags, errs @ [err])
      | (Inr (tag, val), dataBuff') \<Rightarrow>
          if i < length argsTags
          then readArgs rd is (dataBuff', rawArgs(tag \<mapsto> val), argsTags[i := tag], errs)
          else Inl IndexOutOfRange)"

text \<open>
  The body of \<^verbatim>\<open>for dataRaw := range t.eventsChannel\<close> (lines 57 to 77), up to the send on
  \<^verbatim>\<open>out\<close>: the errors sent on \<^verbatim>\<open>errc\<close>, and the event to send, if any.
\<close>

definition decodeRawEvent_body ::
  "('s, 'v, 'e) Tracee \<Rightarrow> byte list \<Rightarrow> panic + error list \<times> 'v RawEvent option" where
  "decodeRawEvent_body t dataRaw =
     (case readContext t dataRaw of
        Inl err \<Rightarrow> Inr ([err], None)
      | Inr (ctx, dataBuff) \<Rightarrow>
          (case readArgs (readArgFromBuff t) [0..<Argnum ctx]
                  (dataBuff, Map.empty, replicate (Argnum ctx) 0, []) of
             Inl p \<Rightarrow> Inl p
           | Inr (_, rawArgs, argsTags, errs) \<Rightarrow>
               Inr (errs, Some \<lparr>Ctx = ctx, RawArgs = rawArgs, ArgsTags = argsTags\<rparr>)))"

text \<open>
  What is on the wire after the header: the results of \<open>n\<close> successive calls of the
  argument decoder, each starting where the one before stopped.
\<close>

fun wireArgs ::
  "(byte list \<Rightarrow> (error + argTag \<times> 'v) \<times> byte list) \<Rightarrow> nat \<Rightarrow> byte list \<Rightarrow>
   (error + argTag \<times> 'v) list" where
  "wireArgs rd 0 buf = []"
| "wireArgs rd (Suc n) buf = fst (rd buf) # wireArgs rd n (snd (rd buf))"

text \<open>
  What the decoder makes of those results: the tag left in the slot of a read (the zero
  tag of \<^verbatim>\<open>make\<close> where the read failed), the errors of the failed reads, and the map
  after the successful ones.
\<close>

fun slotTag :: "error + argTag \<times> 'v \<Rightarrow> argTag" where
  "slotTag (Inl err) = 0"
| "slotTag (Inr (tag, val)) = tag"

fun wireErrors :: "(error + argTag \<times> 'v) list \<Rightarrow> error list" where
  "wireErrors [] = []"
| "wireErrors (Inl err # rs) = err # wireErrors rs"
| "wireErrors (Inr _ # rs) = wireErrors rs"

fun wireMap :: "(argTag \<rightharpoonup> 'v) \<Rightarrow> (error + argTag \<times> 'v) list \<Rightarrow> (argTag \<rightharpoonup> 'v)" where
  "wireMap m [] = m"
| "wireMap m (Inl err # rs) = wireMap m rs"
| "wireMap m (Inr (tag, val) # rs) = wireMap (m(tag \<mapsto> val)) rs"

subsection \<open>processRawEvent\<close>

text \<open>
  The body of \<^verbatim>\<open>for rawEvent := range in\<close> (lines 93 to 102), up to the send on \<^verbatim>\<open>out\<close>:
  the state of the \<^verbatim>\<open>Tracee\<close> afterwards, the errors sent on \<^verbatim>\<open>errc\<close>, and the event to
  send, if any. The hook runs on \<^verbatim>\<open>&rawEvent.Ctx\<close> and on the map, so what is sent is the
  event as the hook left it.
\<close>

definition processRawEvent_body ::
  "('s, 'v, 'e) Tracee \<Rightarrow> 's \<Rightarrow> 'v RawEvent \<Rightarrow> 's \<times> error list \<times> 'v RawEvent option" where
  "processRawEvent_body t s rawEvent =
     (if \<not> shouldProcessEvent t s rawEvent then (s, [], None)
      else
        (case processEvent t s (Ctx rawEvent) (RawArgs rawEvent) of
           (s', ctx', args', Some err) \<Rightarrow> (s', [err], None)
         | (s', ctx', args', None) \<Rightarrow>
             (s', [], Some (rawEvent\<lparr>Ctx := ctx', RawArgs := args'\<rparr>))))"

subsection \<open>getStackTrace\<close>

text \<open>
  \<^verbatim>\<open>binary.LittleEndian.Uint64(b)\<close>: the bounds check \<^verbatim>\<open>_ = b[7]\<close> panics on fewer than
  eight bytes; otherwise the first eight bytes, least significant first.
\<close>

definition Uint64 :: "byte list \<Rightarrow> panic + 64 word" where
  "Uint64 b =
     (if length b < 8 then Inl IndexOutOfRange
      else Inr (ucast (b ! 0) OR push_bit 8 (ucast (b ! 1)) OR push_bit 16 (ucast (b ! 2)) OR
                push_bit 24 (ucast (b ! 3)) OR push_bit 32 (ucast (b ! 4)) OR
                push_bit 40 (ucast (b ! 5)) OR push_bit 48 (ucast (b ! 6)) OR
                push_bit 56 (ucast (b ! 7))))"

text \<open>
  The slice expression \<^verbatim>\<open>b[lo:hi]\<close> on a slice whose capacity is its length (what a
  freshly made buffer is): it panics when \<open>hi\<close> is beyond the end.
\<close>

definition slice :: "byte list \<Rightarrow> nat \<Rightarrow> nat \<Rightarrow> panic + byte list" where
  "slice b lo hi =
     (if lo \<le> hi \<and> hi \<le> length b then Inr (take (hi - lo) (drop lo b))
      else Inl SliceBoundsOutOfRange)"

text \<open>\<^verbatim>\<open>%X\<close> of an unsigned value: upper-case hexadecimal, no leading zeros.\<close>

definition hexDigit :: "nat \<Rightarrow> char" where
  "hexDigit d = ''0123456789ABCDEF'' ! d"

function hexUpper :: "nat \<Rightarrow> string" where
  "hexUpper n = (if n < 16 then [hexDigit n] else hexUpper (n div 16) @ [hexDigit (n mod 16)])"
  by pat_completeness auto
termination
  by (relation "measure id") auto

text \<open>\<^verbatim>\<open>strings.TrimSuffix(s, suffix)\<close>.\<close>

definition TrimSuffix :: "string \<Rightarrow> string \<Rightarrow> string" where
  "TrimSuffix s suf =
     (if length suf \<le> length s \<and> drop (length s - length suf) s = suf
      then take (length s - length suf) s else s)"

text \<open>\<^verbatim>\<open>stackFrameSize := (strconv.IntSize / 8)\<close> and \<^verbatim>\<open>maxStackDepth := 20\<close>.\<close>

definition stackFrameSize :: "platform \<Rightarrow> nat" where
  "stackFrameSize p = IntSize p div 8"

definition maxStackDepth :: nat where
  "maxStackDepth = 20"

text \<open>
  The loop \<^verbatim>\<open>for i := 0; i < len(stackBytes); i += stackFrameSize\<close> (lines 130 to 136), from
  index \<open>i\<close> with the string built so far.
\<close>

function stackLoop :: "platform \<Rightarrow> byte list \<Rightarrow> nat \<Rightarrow> string \<Rightarrow> panic + string" where
  "stackLoop p stackBytes i StackTrace =
     (if i < length stackBytes then
        (case slice stackBytes i (i + stackFrameSize p) of
           Inl e \<Rightarrow> Inl e
         | Inr window \<Rightarrow>
             (case Uint64 window of
                Inl e \<Rightarrow> Inl e
              | Inr stackAddr \<Rightarrow>
                  if stackAddr = 0 then Inr StackTrace
                  else stackLoop p stackBytes (i + stackFrameSize p)
                         (StackTrace @ ''0x'' @ hexUpper (unat stackAddr) @ '','')))
      else Inr StackTrace)"
  by pat_completeness auto
termination
proof (relation "measure (\<lambda>(p, stackBytes, i, StackTrace). length stackBytes - i)")
  fix p :: platform and stackBytes :: "byte list" and i :: nat and StackTrace :: string
  assume "i < length stackBytes"
  moreover have "0 < stackFrameSize p"
    by (cases p) (simp_all add: stackFrameSize_def)
  ultimately show "((p, stackBytes, i + stackFrameSize p, StackTrace @ ''0x'' @ hexUpper (unat stackAddr) @ '',''),
      (p, stackBytes, i, StackTrace)) \<in> measure (\<lambda>(p, stackBytes, i, StackTrace). length stackBytes - i)"
    for stackAddr :: "64 word"
    by simp
qed simp

declare stackLoop.simps [simp del]

text \<open>
  \<^verbatim>\<open>getStackTrace\<close> returns \<^verbatim>\<open>(string, error)\<close>; the error is \<open>None\<close> for \<^verbatim>\<open>nil\<close>. The
  parameter \<^verbatim>\<open>StackID [4]byte\<close> is \<open>stackID\<close>, its four bytes as a list.
\<close>

definition getStackTrace ::
  "('s, 'v, 'e) Tracee \<Rightarrow> byte list \<Rightarrow> panic + string \<times> error option" where
  "getStackTrace t stackID =
     (case GetMap t ''stack_traces'' of
        Inl err \<Rightarrow> Inr ('''', None)
      | Inr GetValue \<Rightarrow>
          (case GetValue (take 4 stackID) (stackFrameSize (strconv t) * maxStackDepth) of
             Inl err \<Rightarrow> Inr ('''', None)
           | Inr stackBytes \<Rightarrow>
               (case stackLoop (strconv t) stackBytes 0 '''' of
                  Inl e \<Rightarrow> Inl e
                | Inr StackTrace \<Rightarrow> Inr (TrimSuffix StackTrace '','', None))))"

subsection \<open>prepareEventForPrint\<close>

text \<open>\<^verbatim>\<open>%d\<close> of an integer: decimal digits, with a minus sign for a negative value.\<close>

definition decDigit :: "nat \<Rightarrow> char" where
  "decDigit d = ''0123456789'' ! d"

function decimal :: "nat \<Rightarrow> string" where
  "decimal n = (if n < 10 then [decDigit n] else decimal (n div 10) @ [decDigit (n mod 10)])"
  by pat_completeness auto
termination
  by (relation "measure id") auto

definition fmt_d :: "int \<Rightarrow> string" where
  "fmt_d k = (if k < 0 then ''-'' @ decimal (nat (- k)) else decimal (nat k))"

text \<open>
  The loop \<^verbatim>\<open>for i, tag := range rawEvent.ArgsTags\<close> (lines 158 to 167), over the list of
  its index and tag pairs. The state is \<^verbatim>\<open>args\<close>, \<^verbatim>\<open>argsNames\<close> and the errors sent so
  far. \<^verbatim>\<open>args[i]\<close> and \<^verbatim>\<open>argsNames[i]\<close> are assignments to slices made with the length
  \<^verbatim>\<open>rawEvent.Ctx.Argnum\<close>: an index at or beyond that length panics. A key that the map
  \<^verbatim>\<open>RawArgs\<close> does not hold reads as \<^verbatim>\<open>nil\<close> (\<open>None\<close>). Go's \<^verbatim>\<open>%\<close> truncates towards
  zero (\<open>smod\<close>).
\<close>

fun nameLoop ::
  "('s, 'v, 'e) Tracee \<Rightarrow> 'v RawEvent \<Rightarrow> (nat \<times> argTag) list \<Rightarrow>
   'v option list \<times> string list \<times> error list \<Rightarrow>
   panic + 'v option list \<times> string list \<times> error list" where
  "nameLoop t rawEvent [] st = Inr st"
| "nameLoop t rawEvent ((i, tag) # rest) (args, argsNames, errs) =
     (if i < length args then
        (case DecParamName t (EventID (Ctx rawEvent) smod 2) tag of
           Some argName \<Rightarrow>
             if i < length argsNames
             then nameLoop t rawEvent rest
                    (args[i := RawArgs rawEvent tag], argsNames[i := argName], errs)
             else Inl IndexOutOfRange
         | None \<Rightarrow>
             nameLoop t rawEvent rest
               (args[i := RawArgs rawEvent tag], argsNames,
                errs @ [''Invalid arg tag for event '' @ fmt_d (EventID (Ctx rawEvent))]))
      else Inl IndexOutOfRange)"

text \<open>
  Lines 156 to 167: the two slices are made with the length \<^verbatim>\<open>rawEvent.Ctx.Argnum\<close>
  (\<^verbatim>\<open>nil\<close> values, empty names) and filled by the loop.
\<close>

definition buildArgs ::
  "('s, 'v, 'e) Tracee \<Rightarrow> 'v RawEvent \<Rightarrow> panic + 'v option list \<times> string list \<times> error list" where
  "buildArgs t rawEvent =
     nameLoop t rawEvent (enumerate 0 (ArgsTags rawEvent))
       (replicate (Argnum (Ctx rawEvent)) None, replicate (Argnum (Ctx rawEvent)) '''', [])"

text \<open>
  The body of \<^verbatim>\<open>for rawEvent := range in\<close> (lines 148 to 179), up to the send on \<^verbatim>\<open>out\<close>:
  a panic, or the state of the \<^verbatim>\<open>Tracee\<close> afterwards, the errors sent on \<^verbatim>\<open>errc\<close> and the
  event to send, if any. The error that \<^verbatim>\<open>getStackTrace\<close> returns is discarded.
\<close>

definition prepareEventForPrint_body ::
  "('s, 'v, 'e) Tracee \<Rightarrow> 's \<Rightarrow> 'v RawEvent \<Rightarrow> panic + 's \<times> error list \<times> 'e option" where
  "prepareEventForPrint_body t s rawEvent =
     (if \<not> shouldPrintEvent t s rawEvent then Inr (s, [], None)
      else
        (case prepareArgsForPrint t s (Ctx rawEvent) (RawArgs rawEvent) of
           (s', ctx', args', Some err) \<Rightarrow> Inr (s', [err], None)
         | (s', ctx', args', None) \<Rightarrow>
             (case buildArgs t (rawEvent\<lparr>Ctx := ctx', RawArgs := args'\<rparr>) of
                Inl p \<Rightarrow> Inl p
              | Inr (args, argsNames, errs) \<Rightarrow>
                  (case getStackTrace t (StackID ctx') of
                     Inl p \<Rightarrow> Inl p
                   | Inr (stackTrace, _) \<Rightarrow>
                       (case newEvent t ctx' argsNames args stackTrace of
                          Inl err \<Rightarrow> Inr (s', errs @ [err], None)
                        | Inr evt \<Rightarrow> Inr (s', errs, Some evt))))))"

subsection \<open>The pipeline: goroutines and channels\<close>

text \<open>
  \<^verbatim>\<open>runEventPipeline\<close> starts four goroutines joined by channels. The state of the running
  pipeline:
  \<^item> \<open>eventsChannel\<close>: the raw buffers not yet received by the decoder, oldest first;
  \<^item> \<open>rawEventChan\<close>, \<open>processedEventChan\<close>: unbuffered channels; \<open>Some x\<close> when the sending
    goroutine stands at its \<^verbatim>\<open>select\<close> with \<open>x\<close>;
  \<^item> \<open>prepared\<close>: the event the print preparer stands at its \<^verbatim>\<open>select\<close> with, and
    \<open>printEventChan\<close>: the buffer of that channel (capacity 1000), oldest first;
  \<^item> \<open>printed\<close>: what \<^verbatim>\<open>t.printer.Print\<close> was called with, oldest first, and
    \<open>eventCounter\<close>;
  \<^item> \<open>handled\<close>: the errors sent on the error channels;
  \<^item> \<open>doneClosed\<close>: whether \<^verbatim>\<open>done\<close> is closed;
  \<^item> \<open>decoderExited\<close>, \<open>processorExited\<close>, \<open>preparerExited\<close>, \<open>printerExited\<close>: a
    goroutine that returned (its deferred \<^verbatim>\<open>close(out)\<close> has run);
  \<^item> \<open>crashed\<close>: a panic in a goroutine ends the program.
  Every item carries the position of its raw buffer in the source, which no function of
  the program reads: it names the event in statements about order. The error channels
  are drained by the goroutines of \<^verbatim>\<open>MergeErrors\<close> into \<^verbatim>\<open>t.handleError\<close>; a send on one of
  them is recorded in \<open>handled\<close> at once.
\<close>

record ('s, 'v, 'e) pipeline =
  tracee :: 's
  eventsChannel :: "(nat \<times> byte list) list"
  rawEventChan :: "(nat \<times> 'v RawEvent) option"
  processedEventChan :: "(nat \<times> 'v RawEvent) option"
  prepared :: "(nat \<times> 'e) option"
  printEventChan :: "(nat \<times> 'e) list"
  printed :: "(nat \<times> 'e) list"
  eventCounter :: nat
  handled :: "error list"
  doneClosed :: bool
  decoderExited :: bool
  processorExited :: bool
  preparerExited :: bool
  printerExited :: bool
  crashed :: "panic option"

text \<open>
  What one goroutine does next. The scheduler picks; a goroutine that cannot do the chosen
  thing (it is blocked, or has returned) leaves the state as it is.
  \<^item> \<open>Decode\<close>: the decoder receives a buffer and runs its loop body up to the \<^verbatim>\<open>select\<close>;
  \<^item> \<open>Process\<close>: the decoder's send and the processor's receive meet, and the processor
    runs its loop body up to the \<^verbatim>\<open>select\<close>; \<open>Prepare\<close> likewise;
  \<^item> \<open>Enqueue\<close>: the preparer's send into the buffered channel;
  \<^item> \<open>Print\<close>: the sink receives an event, counts and prints it;
  \<^item> \<open>CloseDone\<close>: the caller closes \<^verbatim>\<open>done\<close>;
  \<^item> \<open>DecodeCancel\<close>, \<open>ProcessCancel\<close>, \<open>PrepareCancel\<close>: the \<^verbatim>\<open>case <-done: return\<close>
    of a \<^verbatim>\<open>select\<close>;
  \<^item> \<open>DecodeEnd\<close>, \<open>ProcessEnd\<close>, \<open>PrepareEnd\<close>, \<open>PrintEnd\<close>: the \<^verbatim>\<open>range\<close> loop ends
    because the input channel is closed and empty (the source is closed after its last
    buffer).
\<close>

datatype action =
  Decode | Process | Prepare | Enqueue | Print | CloseDone
| DecodeCancel | ProcessCancel | PrepareCancel
| DecodeEnd | ProcessEnd | PrepareEnd | PrintEnd

fun step :: "('s, 'v, 'e) Tracee \<Rightarrow> action \<Rightarrow> ('s, 'v, 'e) pipeline \<Rightarrow> ('s, 'v, 'e) pipeline" where
  "step t Decode p =
     (case eventsChannel p of
        [] \<Rightarrow> p
      | (n, dataRaw) # rest \<Rightarrow>
          if decoderExited p \<or> rawEventChan p \<noteq> None then p
          else
            (case decodeRawEvent_body t dataRaw of
               Inl e \<Rightarrow> p\<lparr>crashed := Some e\<rparr>
             | Inr (errs, out) \<Rightarrow>
                 p\<lparr>eventsChannel := rest, handled := handled p @ errs,
                   rawEventChan := map_option (Pair n) out\<rparr>))"
| "step t Process p =
     (case rawEventChan p of
        None \<Rightarrow> p
      | Some (n, rawEvent) \<Rightarrow>
          if processorExited p \<or> processedEventChan p \<noteq> None then p
          else
            (case processRawEvent_body t (tracee p) rawEvent of
               (s', errs, out) \<Rightarrow>
                 p\<lparr>tracee := s', rawEventChan := None, handled := handled p @ errs,
                   processedEventChan := map_option (Pair n) out\<rparr>))"
| "step t Prepare p =
     (case processedEventChan p of
        None \<Rightarrow> p
      | Some (n, rawEvent) \<Rightarrow>
          if preparerExited p \<or> prepared p \<noteq> None then p
          else
            (case prepareEventForPrint_body t (tracee p) rawEvent of
               Inl e \<Rightarrow> p\<lparr>crashed := Some e\<rparr>
             | Inr (s', errs, out) \<Rightarrow>
                 p\<lparr>tracee := s', processedEventChan := None, handled := handled p @ errs,
                   prepared := map_option (Pair n) out\<rparr>))"
| "step t Enqueue p =
     (case prepared p of
        None \<Rightarrow> p
      | Some x \<Rightarrow>
          if length (printEventChan p) < 1000
          then p\<lparr>prepared := None, printEventChan := printEventChan p @ [x]\<rparr>
          else p)"
| "step t Print p =
     (case printEventChan p of
        [] \<Rightarrow> p
      | x # rest \<Rightarrow>
          if printerExited p then p
          else p\<lparr>printEventChan := rest, eventCounter := eventCounter p + 1,
                 printed := printed p @ [x]\<rparr>)"
| "step t CloseDone p = p\<lparr>doneClosed := True\<rparr>"
| "step t DecodeCancel p =
     (if doneClosed p \<and> rawEventChan p \<noteq> None
      then p\<lparr>rawEventChan := None, decoderExited := True\<rparr> else p)"
| "step t ProcessCancel p =
     (if doneClosed p \<and> processedEventChan p \<noteq> None
      then p\<lparr>processedEventChan := None, processorExited := True\<rparr> else p)"
| "step t PrepareCancel p =
     (if doneClosed p \<and> prepared p \<noteq> None
      then p\<lparr>prepared := None, preparerExited := True\<rparr> else p)"
| "step t DecodeEnd p =
     (if eventsChannel p = [] \<and> rawEventChan p = None then p\<lparr>decoderExited := True\<rparr> else p)"
| "step t ProcessEnd p =
     (if decoderExited p \<and> rawEventChan p = None \<and> processedEventChan p = None
      then p\<lparr>processorExited := True\<rparr> else p)"
| "step t PrepareEnd p =
     (if processorExited p \<and> processedEventChan p = None \<and> prepared p = None
      then p\<lparr>preparerExited := True\<rparr> else p)"
| "step t PrintEnd p =
     (if preparerExited p \<and> printEventChan p = [] then p\<lparr>printerExited := True\<rparr> else p)"

text \<open>
  A run of the pipeline under a schedule. Once a goroutine has panicked nothing runs.
\<close>

fun run :: "('s, 'v, 'e) Tracee \<Rightarrow> action list \<Rightarrow> ('s, 'v, 'e) pipeline \<Rightarrow> ('s, 'v, 'e) pipeline" where
  "run t [] p = p"
| "run t (a # as) p = (if crashed p \<noteq> None then p else run t as (step t a p))"

text \<open>The pipeline as \<^verbatim>\<open>runEventPipeline\<close> starts it, on the raw buffers of the source.\<close>

definition start :: "'s \<Rightarrow> byte list list \<Rightarrow> ('s, 'v, 'e) pipeline" where
  "start s source =
     \<lparr>tracee = s, eventsChannel = enumerate 0 source, rawEventChan = None,
      processedEventChan = None, prepared = None, printEventChan = [], printed = [],
      eventCounter = 0, handled = [], doneClosed = False, decoderExited = False,
      processorExited = False, preparerExited = False, printerExited = False,
      crashed = None\<rparr>"

subsection \<open>Notions the statements use\<close>

text \<open>
  \<^verbatim>\<open>binary.LittleEndian.PutUint64\<close>: the eight bytes of a word, least significant first. A
  stack buffer that holds the words \<open>ws\<close> is \<open>concat (map PutUint64 ws)\<close>.
\<close>

definition PutUint64 :: "64 word \<Rightarrow> byte list" where
  "PutUint64 v =
     [ucast v, ucast (drop_bit 8 v), ucast (drop_bit 16 v), ucast (drop_bit 24 v),
      ucast (drop_bit 32 v), ucast (drop_bit 40 v), ucast (drop_bit 48 v),
      ucast (drop_bit 56 v)]"

text \<open>An address as \<^verbatim>\<open>0x<HEX>\<close>, and strings joined by commas.\<close>

definition hexAddr :: "64 word \<Rightarrow> string" where
  "hexAddr w = ''0x'' @ hexUpper (unat w)"

fun joinComma :: "string list \<Rightarrow> string" where
  "joinComma [] = ''''"
| "joinComma [x] = x"
| "joinComma (x # y # ys) = x @ '','' @ joinComma (y # ys)"

text \<open>
  The name a tag resolves to in the table that the event identifier selects, empty when
  the table has none; and the errors for the tags of a sequence that have none.
\<close>

definition slotName :: "('s, 'v, 'e) Tracee \<Rightarrow> context \<Rightarrow> argTag \<Rightarrow> string" where
  "slotName t ctx tag =
     (case DecParamName t (EventID ctx smod 2) tag of Some argName \<Rightarrow> argName | None \<Rightarrow> '''')"

fun tagErrors :: "('s, 'v, 'e) Tracee \<Rightarrow> context \<Rightarrow> argTag list \<Rightarrow> error list" where
  "tagErrors t ctx [] = []"
| "tagErrors t ctx (tag # tags) =
     (case DecParamName t (EventID ctx smod 2) tag of
        Some argName \<Rightarrow> tagErrors t ctx tags
      | None \<Rightarrow> (''Invalid arg tag for event '' @ fmt_d (EventID ctx)) # tagErrors t ctx tags)"


text \<open>
  A \<^verbatim>\<open>Tracee\<close> that counts the calls of its mutation hook \<^verbatim>\<open>processEvent\<close>: the state is
  paired with a counter that the hook increments and nothing else reads.
\<close>

definition countCalls :: "('s, 'v, 'e) Tracee \<Rightarrow> (nat \<times> 's, 'v, 'e) Tracee" where
  "countCalls t =
     \<lparr>readContext = readContext t, readArgFromBuff = readArgFromBuff t,
      shouldProcessEvent = (\<lambda>(n, s). shouldProcessEvent t s),
      processEvent = (\<lambda>(n, s) ctx args.
         (case processEvent t s ctx args of (s', r) \<Rightarrow> ((Suc n, s'), r))),
      shouldPrintEvent = (\<lambda>(n, s). shouldPrintEvent t s),
      prepareArgsForPrint = (\<lambda>(n, s) ctx args.
         (case prepareArgsForPrint t s ctx args of (s', r) \<Rightarrow> ((n, s'), r))),
      DecParamName = DecParamName t, GetMap = GetMap t, newEvent = newEvent t,
      strconv = strconv t\<rparr>"

text \<open>
  The source positions of the events in the pipeline, from the sink back to the source.
\<close>

definition held :: "(nat \<times> 'a) option \<Rightarrow> nat list" where
  "held x = (case x of None \<Rightarrow> [] | Some (n, _) \<Rightarrow> [n])"

definition positions :: "('s, 'v, 'e) pipeline \<Rightarrow> nat list" where
  "positions p =
     map fst (printed p) @ map fst (printEventChan p) @ held (prepared p) @
     held (processedEventChan p) @ held (rawEventChan p) @ map fst (eventsChannel p)"

subsection \<open>A concrete instance\<close>

text \<open>
  A small \<^verbatim>\<open>Tracee\<close> to run the definitions on. The header is six bytes (event identifier,
  argument count, four bytes of stack identifier); an argument is a tag byte and a value
  byte, and the tag 255 does not decode. Events with identifier 0 are not processed, the
  mutation hook fails on identifier 1, the tables name the tags 1 and 2 of odd events and
  the tag 1 of even events, and the stack identifier 1 has a trace.
\<close>

fun sampleReadContext :: "byte list \<Rightarrow> error + context \<times> byte list" where
  "sampleReadContext (e # n # a # b # c # d # rest) =
     Inr (\<lparr>Ts = 0, Pid = 0, Tid = 0, EventID = uint e, Argnum = unat n, StackID = [a, b, c, d]\<rparr>,
          rest)"
| "sampleReadContext _ = Inl ''unexpected EOF''"

fun sampleReadArg :: "byte list \<Rightarrow> (error + argTag \<times> byte) \<times> byte list" where
  "sampleReadArg (tag # val # rest) =
     (if tag = 255 then (Inl ''unknown argument type'', rest) else (Inr (tag, val), rest))"
| "sampleReadArg rest = (Inl ''EOF'', [])"

definition sampleStackBytes :: "byte list" where
  "sampleStackBytes =
     [16, 0, 0, 0, 0, 0, 0, 0, 32, 0, 0, 0, 0, 0, 0, 0,
      0, 0, 0, 0, 0, 0, 0, 0, 48, 0, 0, 0, 0, 0, 0, 0]"

type_synonym sampleEvent = "context \<times> string list \<times> byte option list \<times> string"

definition sampleTracee :: "(nat, byte, sampleEvent) Tracee" where
  "sampleTracee =
     \<lparr>readContext = sampleReadContext, readArgFromBuff = sampleReadArg,
      shouldProcessEvent = (\<lambda>s rawEvent. EventID (Ctx rawEvent) \<noteq> 0),
      processEvent = (\<lambda>s ctx args.
         (Suc s, ctx, args, if EventID ctx = 1 then Some ''process failed'' else None)),
      shouldPrintEvent = (\<lambda>s rawEvent. True),
      prepareArgsForPrint = (\<lambda>s ctx args. (s, ctx, args, None)),
      DecParamName = (\<lambda>sel. if sel = 1 then [1 \<mapsto> ''fd'', 2 \<mapsto> ''count''] else [1 \<mapsto> ''pathname'']),
      GetMap = (\<lambda>name. if name = ''stack_traces''
         then Inr (\<lambda>key size. if key = [1, 0, 0, 0] then Inr sampleStackBytes else Inl ''no such key'')
         else Inl ''no such map''),
      newEvent = (\<lambda>ctx argsNames args stackTrace. Inr (ctx, argsNames, args, stackTrace)),
      strconv = Int64\<rparr>"

text \<open>
  The same on a 32-bit platform, where the stack buffer holds the same four addresses as
  four-byte words.
\<close>

definition sampleTracee32 :: "(nat, byte, sampleEvent) Tracee" where
  "sampleTracee32 =
     sampleTracee
       \<lparr>GetMap := (\<lambda>name. Inr (\<lambda>key size.
           Inr [16, 0, 0, 0, 32, 0, 0, 0, 0, 0, 0, 0, 48, 0, 0, 0])),
        strconv := Int32\<rparr>"

text \<open>
  The same with a mutation hook that lowers the argument count of the header it is
  given (the hook gets \<^verbatim>\<open>&rawEvent.Ctx\<close>) and reports no error.
\<close>

definition sampleTraceeLowering :: "(nat, byte, sampleEvent) Tracee" where
  "sampleTraceeLowering =
     sampleTracee\<lparr>processEvent := (\<lambda>s ctx args. (Suc s, ctx\<lparr>Argnum := 1\<rparr>, args, None))\<rparr>"

text \<open>
  The same with a formatting hook that lowers the argument count of the header it is
  given and reports no error, and the same with a constructor \<^verbatim>\<open>newEvent\<close> that fails.
\<close>

definition sampleTraceeTrimming :: "(nat, byte, sampleEvent) Tracee" where
  "sampleTraceeTrimming =
     sampleTracee\<lparr>prepareArgsForPrint := (\<lambda>s ctx args. (s, ctx\<lparr>Argnum := 1\<rparr>, args, None))\<rparr>"

definition sampleTraceeNoEvent :: "(nat, byte, sampleEvent) Tracee" where
  "sampleTraceeNoEvent =
     sampleTracee\<lparr>newEvent := (\<lambda>ctx argsNames args stackTrace. Inl ''no event'')\<rparr>"

section \<open>Properties\<close>

subsection \<open>The decoder\<close>

text \<open>
  The argument loop, started on the slots still to fill: it never panics, and it leaves
  in each slot the tag read for it, or the zero tag where the read failed.
\<close>

lemma readArgs_wire:
  "\<exists>buf'. readArgs rd [length pre..<length pre + n] (buf, m, pre @ replicate n 0, errs) =
     Inr (buf', wireMap m (wireArgs rd n buf), pre @ map slotTag (wireArgs rd n buf),
          errs @ wireErrors (wireArgs rd n buf))"
proof (induction n arbitrary: pre buf m errs)
  case 0
  then show ?case by simp
next
  case (Suc n)
  obtain r buf1 where rd: "rd buf = (r, buf1)" by (cases "rd buf")
  let ?pre = "pre @ [slotTag r]"
  let ?is = "[length ?pre..<length ?pre + n]"
  have idx: "[length pre..<length pre + Suc n] = length pre # ?is"
    by (simp add: upt_conv_Cons)
  have wire: "wireArgs rd (Suc n) buf = r # wireArgs rd n buf1"
    using rd by simp
  show ?case
  proof (cases r)
    case (Inl err)
    have step: "readArgs rd (length pre # ?is) (buf, m, pre @ replicate (Suc n) 0, errs) =
        readArgs rd ?is (buf1, m, ?pre @ replicate n 0, errs @ [err])"
      using rd Inl by simp
    obtain buf' where "readArgs rd ?is (buf1, m, ?pre @ replicate n 0, errs @ [err]) =
        Inr (buf', wireMap m (wireArgs rd n buf1), ?pre @ map slotTag (wireArgs rd n buf1),
          (errs @ [err]) @ wireErrors (wireArgs rd n buf1))"
      using Suc.IH [of ?pre buf1 m "errs @ [err]"] by blast
    then show ?thesis
      unfolding idx step wire using Inl by simp
  next
    case (Inr tv)
    obtain tag val where tv: "tv = (tag, val)" by (cases tv)
    have step: "readArgs rd (length pre # ?is) (buf, m, pre @ replicate (Suc n) 0, errs) =
        readArgs rd ?is (buf1, m(tag \<mapsto> val), ?pre @ replicate n 0, errs)"
      using rd Inr tv by simp
    obtain buf' where "readArgs rd ?is (buf1, m(tag \<mapsto> val), ?pre @ replicate n 0, errs) =
        Inr (buf', wireMap (m(tag \<mapsto> val)) (wireArgs rd n buf1),
          ?pre @ map slotTag (wireArgs rd n buf1), errs @ wireErrors (wireArgs rd n buf1))"
      using Suc.IH [of ?pre buf1 "m(tag \<mapsto> val)" errs] by blast
    then show ?thesis
      unfolding idx step wire using Inr tv by simp
  qed
qed

lemma wireArgs_numeral:
  "wireArgs rd (numeral k) buf = fst (rd buf) # wireArgs rd (pred_numeral k) (snd (rd buf))"
  by (simp add: numeral_eq_Suc)

lemma length_wireArgs: "length (wireArgs rd n buf) = n"
  by (induction n arbitrary: buf) simp_all

lemma decodeRawEvent_body_wire:
  assumes "readContext t dataRaw = Inr (ctx, dataBuff)"
  shows "decodeRawEvent_body t dataRaw =
     Inr (wireErrors (wireArgs (readArgFromBuff t) (Argnum ctx) dataBuff),
          Some \<lparr>Ctx = ctx,
                RawArgs = wireMap Map.empty (wireArgs (readArgFromBuff t) (Argnum ctx) dataBuff),
                ArgsTags = map slotTag (wireArgs (readArgFromBuff t) (Argnum ctx) dataBuff)\<rparr>)"
proof -
  obtain buf' where
    "readArgs (readArgFromBuff t) [0..<Argnum ctx] (dataBuff, Map.empty, replicate (Argnum ctx) 0, []) =
       Inr (buf', wireMap Map.empty (wireArgs (readArgFromBuff t) (Argnum ctx) dataBuff),
            map slotTag (wireArgs (readArgFromBuff t) (Argnum ctx) dataBuff),
            wireErrors (wireArgs (readArgFromBuff t) (Argnum ctx) dataBuff))"
    using readArgs_wire [of "readArgFromBuff t" "[]" "Argnum ctx" dataBuff Map.empty "[]"]
    by auto
  then show ?thesis
    using assms by (simp add: decodeRawEvent_body_def)
qed

lemma wireErrors_mem: "k < length rs \<Longrightarrow> rs ! k = Inl err \<Longrightarrow> err \<in> set (wireErrors rs)"
proof (induction rs arbitrary: k)
  case Nil
  then show ?case by simp
next
  case (Cons r rs)
  show ?case
  proof (cases k)
    case 0
    with Cons.prems show ?thesis by simp
  next
    case (Suc j)
    with Cons.prems have "err \<in> set (wireErrors rs)"
      by (intro Cons.IH [of j]) simp_all
    then show ?thesis by (cases r) simp_all
  qed
qed

lemma wireErrors_Inr: "wireErrors (map Inr tvs) = []"
  by (induction tvs) simp_all

lemma slotTag_Inr: "map slotTag (map Inr tvs) = map fst tvs"
  by (induction tvs) auto

lemma wireMap_Inr:
  "distinct (map fst tvs) \<Longrightarrow> wireMap m (map Inr tvs) = m ++ map_of tvs"
proof (induction tvs arbitrary: m)
  case Nil
  then show ?case by simp
next
  case (Cons tv tvs)
  obtain tag val where tv: "tv = (tag, val)" by (cases tv)
  from Cons.prems tv have fresh: "map_of tvs tag = None"
    by (simp add: map_of_eq_None_iff)
  have "wireMap m (map Inr (tv # tvs)) = wireMap (m(tag \<mapsto> val)) (map Inr tvs)"
    unfolding tv list.map by (rule wireMap.simps)
  also have "\<dots> = m(tag \<mapsto> val) ++ map_of tvs"
    by (rule Cons.IH) (use Cons.prems in simp)
  also have "\<dots> = m ++ map_of (tv # tvs)"
    using fresh by (auto simp: tv fun_eq_iff map_add_def split: option.splits)
  finally show ?case .
qed
text \<open>
  C2. For a raw buffer whose header decodes, declaring \<open>N\<close> arguments, and whose \<open>N\<close>
  arguments all decode, with pairwise different tags, the decoder sends no error and
  produces exactly one raw event; its map has exactly the \<open>N\<close> decoded entries and its tag
  sequence lists the \<open>N\<close> tags in the order they were read from the buffer.
\<close>

theorem valid_buffer_decodes_in_wire_order:
  assumes "readContext t dataRaw = Inr (ctx, dataBuff)"
    and "wireArgs (readArgFromBuff t) (Argnum ctx) dataBuff = map Inr tvs"
    and "distinct (map fst tvs)"
  shows "decodeRawEvent_body t dataRaw =
           Inr ([], Some \<lparr>Ctx = ctx, RawArgs = map_of tvs, ArgsTags = map fst tvs\<rparr>) \<and>
         length tvs = Argnum ctx \<and> card (dom (map_of tvs)) = Argnum ctx"
proof -
  have len: "length tvs = Argnum ctx"
    using length_wireArgs [of "readArgFromBuff t" "Argnum ctx" dataBuff] assms(2) by simp
  have "card (dom (map_of tvs)) = card (set (map fst tvs))"
    by (simp add: dom_map_of_conv_image_fst)
  also have "\<dots> = length tvs"
    using assms(3) distinct_card [of "map fst tvs"] by simp
  finally have card: "card (dom (map_of tvs)) = Argnum ctx"
    using len by simp
  have "decodeRawEvent_body t dataRaw =
      Inr ([], Some \<lparr>Ctx = ctx, RawArgs = map_of tvs, ArgsTags = map fst tvs\<rparr>)"
    unfolding decodeRawEvent_body_wire [OF assms(1)] assms(2) wireErrors_Inr slotTag_Inr
      wireMap_Inr [OF assms(3)]
    by simp
  with len card show ?thesis by simp
qed

theorem valid_buffer_decodes_in_wire_order_witness:
  "readContext sampleTracee [7, 2, 1, 0, 0, 0, 1, 10, 2, 20] =
     Inr (\<lparr>Ts = 0, Pid = 0, Tid = 0, EventID = 7, Argnum = 2, StackID = [1, 0, 0, 0]\<rparr>,
          [1, 10, 2, 20]) \<and>
   wireArgs (readArgFromBuff sampleTracee) 2 [1, 10, 2, 20] = map Inr [(1, 10), (2, 20)] \<and>
   distinct (map fst [(1 :: argTag, 10 :: byte), (2, 20)]) \<and>
   decodeRawEvent_body sampleTracee [7, 2, 1, 0, 0, 0, 1, 10, 2, 20] =
     Inr ([], Some \<lparr>Ctx = \<lparr>Ts = 0, Pid = 0, Tid = 0, EventID = 7, Argnum = 2,
                            StackID = [1, 0, 0, 0]\<rparr>,
                     RawArgs = map_of [(1, 10), (2, 20)], ArgsTags = [1, 2]\<rparr>)"
proof -
  let ?ctx = "\<lparr>Ts = 0, Pid = 0, Tid = 0, EventID = 7, Argnum = 2, StackID = [1, 0, 0, 0 :: byte]\<rparr>"
  have h1: "readContext sampleTracee [7, 2, 1, 0, 0, 0, 1, 10, 2, 20] = Inr (?ctx, [1, 10, 2, 20])"
    by (simp add: sampleTracee_def)
  have h2: "wireArgs (readArgFromBuff sampleTracee) (Argnum ?ctx) [1, 10, 2, 20] =
      map Inr [(1, 10), (2, 20)]"
    by (simp add: sampleTracee_def wireArgs_numeral)
  have h3: "distinct (map fst [(1 :: argTag, 10 :: byte), (2, 20)])"
    by simp
  from valid_buffer_decodes_in_wire_order [OF h1 h2 h3] h1 h2 h3 show ?thesis
    by simp
qed

text \<open>
  C1, as the code has it. For a raw buffer whose header decodes, declaring \<open>N\<close>
  arguments, and whose \<open>k\<close>-th argument fails to decode, the decoder sends the error of
  that argument and still produces a raw event. Its tag sequence has exactly \<open>N\<close> entries:
  the slot of the failed argument holds the zero tag, and nothing is added to the map for
  it. Every slot holds what the successive reads from the one buffer cursor gave for it,
  so the arguments after the \<open>k\<close>-th are still read, from where the failed read stopped.
\<close>

theorem corrupt_argument_leaves_zero_tag:
  assumes "readContext t dataRaw = Inr (ctx, dataBuff)"
    and "k < Argnum ctx"
    and "wireArgs (readArgFromBuff t) (Argnum ctx) dataBuff ! k = Inl err"
  shows "decodeRawEvent_body t dataRaw =
           Inr (wireErrors (wireArgs (readArgFromBuff t) (Argnum ctx) dataBuff),
                Some \<lparr>Ctx = ctx,
                      RawArgs = wireMap Map.empty (wireArgs (readArgFromBuff t) (Argnum ctx) dataBuff),
                      ArgsTags = map slotTag (wireArgs (readArgFromBuff t) (Argnum ctx) dataBuff)\<rparr>) \<and>
         err \<in> set (wireErrors (wireArgs (readArgFromBuff t) (Argnum ctx) dataBuff)) \<and>
         length (map slotTag (wireArgs (readArgFromBuff t) (Argnum ctx) dataBuff)) = Argnum ctx \<and>
         map slotTag (wireArgs (readArgFromBuff t) (Argnum ctx) dataBuff) ! k = 0"
proof -
  let ?rs = "wireArgs (readArgFromBuff t) (Argnum ctx) dataBuff"
  have len: "length ?rs = Argnum ctx"
    by (rule length_wireArgs)
  have "err \<in> set (wireErrors ?rs)"
    using assms(2,3) len by (intro wireErrors_mem [of k]) simp_all
  moreover have "map slotTag ?rs ! k = 0"
    using assms(2,3) len by simp
  ultimately show ?thesis
    using decodeRawEvent_body_wire [OF assms(1)] len by simp
qed

theorem corrupt_argument_leaves_zero_tag_witness:
  "readContext sampleTracee [7, 2, 0, 0, 0, 0, 255, 1, 5, 9] =
     Inr (\<lparr>Ts = 0, Pid = 0, Tid = 0, EventID = 7, Argnum = 2, StackID = [0, 0, 0, 0]\<rparr>,
          [255, 1, 5, 9]) \<and>
   (0 :: nat) < 2 \<and>
   wireArgs (readArgFromBuff sampleTracee) 2 [255, 1, 5, 9] ! 0 = Inl ''unknown argument type'' \<and>
   decodeRawEvent_body sampleTracee [7, 2, 0, 0, 0, 0, 255, 1, 5, 9] =
     Inr ([''unknown argument type''],
          Some \<lparr>Ctx = \<lparr>Ts = 0, Pid = 0, Tid = 0, EventID = 7, Argnum = 2,
                       StackID = [0, 0, 0, 0]\<rparr>,
                RawArgs = [5 \<mapsto> 9], ArgsTags = [0, 5]\<rparr>)"
proof -
  let ?ctx = "\<lparr>Ts = 0, Pid = 0, Tid = 0, EventID = 7, Argnum = 2, StackID = [0, 0, 0, 0 :: byte]\<rparr>"
  have h1: "readContext sampleTracee [7, 2, 0, 0, 0, 0, 255, 1, 5, 9] = Inr (?ctx, [255, 1, 5, 9])"
    by (simp add: sampleTracee_def)
  have h2: "(0 :: nat) < Argnum ?ctx"
    by simp
  have w: "wireArgs (readArgFromBuff sampleTracee) (Argnum ?ctx) [255, 1, 5, 9] =
      [Inl ''unknown argument type'', Inr (5, 9)]"
    by (simp add: sampleTracee_def wireArgs_numeral)
  then have h3: "wireArgs (readArgFromBuff sampleTracee) (Argnum ?ctx) [255, 1, 5, 9] ! 0 =
      Inl ''unknown argument type''"
    by simp
  from corrupt_argument_leaves_zero_tag [OF h1 h2 h3] h1 w show ?thesis
    by simp
qed

theorem corrupt_argument_counterexample:
  "(case decodeRawEvent_body sampleTracee [7, 2, 0, 0, 0, 0, 255, 1, 5, 9] of
      Inr (errs, Some rawEvent) \<Rightarrow>
        errs = [''unknown argument type''] \<and> Argnum (Ctx rawEvent) = 2 \<and>
        ArgsTags rawEvent = [0, 5] \<and> \<not> length (ArgsTags rawEvent) < Argnum (Ctx rawEvent)
    | _ \<Rightarrow> False)"
proof -
  let ?ctx = "\<lparr>Ts = 0, Pid = 0, Tid = 0, EventID = 7, Argnum = 2, StackID = [0, 0, 0, 0 :: byte]\<rparr>"
  have h: "readContext sampleTracee [7, 2, 0, 0, 0, 0, 255, 1, 5, 9] = Inr (?ctx, [255, 1, 5, 9])"
    by (simp add: sampleTracee_def)
  have w: "wireArgs (readArgFromBuff sampleTracee) (Argnum ?ctx) [255, 1, 5, 9] =
      [Inl ''unknown argument type'', Inr (5, 9)]"
    by (simp add: sampleTracee_def wireArgs_numeral)
  show ?thesis
    unfolding decodeRawEvent_body_wire [OF h] w by simp
qed

text \<open>
  A buffer whose header does not decode produces no raw event and exactly one error, the
  one of the header decoder; its arguments are not read.
\<close>

theorem header_failure_drops_buffer:
  assumes "readContext t dataRaw = Inl err"
  shows "decodeRawEvent_body t dataRaw = Inr ([err], None)"
  using assms by (simp add: decodeRawEvent_body_def)

theorem header_failure_drops_buffer_witness:
  "readContext sampleTracee [7, 2, 0] = Inl ''unexpected EOF'' \<and>
   decodeRawEvent_body sampleTracee [7, 2, 0] = Inr ([''unexpected EOF''], None)"
proof -
  have h: "readContext sampleTracee [7, 2, 0] = Inl ''unexpected EOF''"
    by (simp add: sampleTracee_def)
  from header_failure_drops_buffer [OF h] h show ?thesis
    by simp
qed

subsection \<open>The print preparer\<close>

text \<open>
  The naming loop on slices that have a slot for every tag: it does not panic, every slot
  gets the value and the name of its tag, and a tag without a name costs one error and
  leaves the name empty.
\<close>

lemma nameLoop_fill:
  assumes "length pren = length pre"
  shows "nameLoop t e (enumerate (length pre) tags)
      (pre @ replicate (length tags) None @ post,
       pren @ replicate (length tags) '''' @ postn, errs) =
     Inr (pre @ map (RawArgs e) tags @ post,
          pren @ map (slotName t (Ctx e)) tags @ postn,
          errs @ tagErrors t (Ctx e) tags)"
  using assms
proof (induction tags arbitrary: pre pren errs)
  case Nil
  then show ?case by simp
next
  case (Cons tag tags)
  let ?v = "RawArgs e tag"
  let ?msg = "''Invalid arg tag for event '' @ fmt_d (EventID (Ctx e))"
  have a: "(pre @ replicate (length (tag # tags)) None @ post)[length pre := ?v] =
      (pre @ [?v]) @ replicate (length tags) None @ post"
    by simp
  have en: "enumerate (length pre) (tag # tags) =
      (length pre, tag) # enumerate (length (pre @ [?v])) tags"
    by simp
  show ?case
  proof (cases "DecParamName t (EventID (Ctx e) smod 2) tag")
    case None
    have n: "pren @ replicate (length (tag # tags)) '''' @ postn =
        (pren @ ['''']) @ replicate (length tags) '''' @ postn"
      by simp
    have "nameLoop t e (enumerate (length pre) (tag # tags))
        (pre @ replicate (length (tag # tags)) None @ post,
         pren @ replicate (length (tag # tags)) '''' @ postn, errs) =
      nameLoop t e (enumerate (length (pre @ [?v])) tags)
        ((pre @ [?v]) @ replicate (length tags) None @ post,
         (pren @ ['''']) @ replicate (length tags) '''' @ postn, errs @ [?msg])"
      unfolding en n using None a by simp
    also have "\<dots> = Inr ((pre @ [?v]) @ map (RawArgs e) tags @ post,
        (pren @ ['''']) @ map (slotName t (Ctx e)) tags @ postn,
        (errs @ [?msg]) @ tagErrors t (Ctx e) tags)"
      by (rule Cons.IH) (simp add: Cons.prems)
    finally show ?thesis
      using None by (simp add: slotName_def)
  next
    case (Some argName)
    have n: "(pren @ replicate (length (tag # tags)) '''' @ postn)[length pre := argName] =
        (pren @ [argName]) @ replicate (length tags) '''' @ postn"
      unfolding Cons.prems [symmetric] by simp
    have "nameLoop t e (enumerate (length pre) (tag # tags))
        (pre @ replicate (length (tag # tags)) None @ post,
         pren @ replicate (length (tag # tags)) '''' @ postn, errs) =
      nameLoop t e (enumerate (length (pre @ [?v])) tags)
        ((pre @ [?v]) @ replicate (length tags) None @ post,
         (pren @ [argName]) @ replicate (length tags) '''' @ postn, errs)"
      unfolding en using Some a n Cons.prems by simp
    also have "\<dots> = Inr ((pre @ [?v]) @ map (RawArgs e) tags @ post,
        (pren @ [argName]) @ map (slotName t (Ctx e)) tags @ postn,
        errs @ tagErrors t (Ctx e) tags)"
      by (rule Cons.IH) (simp add: Cons.prems)
    finally show ?thesis
      using Some by (simp add: slotName_def)
  qed
qed

lemma buildArgs_fits:
  fixes e :: "'v RawEvent"
  assumes "length (ArgsTags e) \<le> Argnum (Ctx e)"
  shows "buildArgs t e =
     Inr (map (RawArgs e) (ArgsTags e) @ replicate (Argnum (Ctx e) - length (ArgsTags e)) None,
          map (slotName t (Ctx e)) (ArgsTags e) @
            replicate (Argnum (Ctx e) - length (ArgsTags e)) '''',
          tagErrors t (Ctx e) (ArgsTags e))"
proof -
  let ?n = "length (ArgsTags e)" and ?k = "Argnum (Ctx e) - length (ArgsTags e)"
  have r: "replicate (Argnum (Ctx e)) (None :: 'v option) =
      [] @ replicate ?n None @ replicate ?k None"
    using assms by (simp flip: replicate_add)
  have r': "replicate (Argnum (Ctx e)) '''' = [] @ replicate ?n '''' @ replicate ?k ''''"
    using assms by (simp flip: replicate_add)
  show ?thesis
    unfolding buildArgs_def r r'
    using nameLoop_fill [of "[]" "[]" t e "ArgsTags e" "replicate ?k None" "replicate ?k ''''" "[]"]
    by simp
qed

text \<open>With more tags than slots the loop panics: the model does have the failure.\<close>

lemma nameLoop_short:
  "length args = length names \<Longrightarrow> k \<le> length args \<Longrightarrow> length args < k + length tags \<Longrightarrow>
   nameLoop t e (enumerate k tags) (args, names, errs) = Inl IndexOutOfRange"
proof (induction tags arbitrary: k args names errs)
  case Nil
  then show ?case by simp
next
  case (Cons tag tags)
  then show ?case
    by (cases "DecParamName t (EventID (Ctx e) smod 2) tag") auto
qed

lemma buildArgs_short:
  "Argnum (Ctx e) < length (ArgsTags e) \<Longrightarrow> buildArgs t e = Inl IndexOutOfRange"
  unfolding buildArgs_def by (rule nameLoop_short) simp_all

lemma tagErrors_mem:
  "i < length tags \<Longrightarrow> DecParamName t (EventID ctx smod 2) (tags ! i) = None \<Longrightarrow>
   (''Invalid arg tag for event '' @ fmt_d (EventID ctx)) \<in> set (tagErrors t ctx tags)"
proof (induction tags arbitrary: i)
  case Nil
  then show ?case by simp
next
  case (Cons tag tags)
  show ?case
  proof (cases i)
    case 0
    with Cons.prems show ?thesis by simp
  next
    case (Suc j)
    with Cons.prems
    have "(''Invalid arg tag for event '' @ fmt_d (EventID ctx)) \<in> set (tagErrors t ctx tags)"
      by (intro Cons.IH [of j]) simp_all
    then show ?thesis
      by (cases "DecParamName t (EventID ctx smod 2) tag") simp_all
  qed
qed


text \<open>
  C8, as the code has it. Every raw event that the decoder emits has a tag sequence
  whose length is the argument count of its header, the slots of failed arguments
  holding the zero tag. The print preparer makes its two slices with the argument count
  as the hooks left it (both hooks get \<^verbatim>\<open>&rawEvent.Ctx\<close>), so its loop over the tag
  sequence stays in range exactly when that count is not lower than the count at
  decoding, whatever else the hooks rewrote; in particular when they left it as it was.
\<close>

theorem decoded_tags_match_argument_count:
  assumes "decodeRawEvent_body t dataRaw = Inr (errs, Some rawEvent)"
  shows "length (ArgsTags rawEvent) = Argnum (Ctx rawEvent) \<and>
         (\<exists>ctx dataBuff. readContext t dataRaw = Inr (ctx, dataBuff) \<and>
            ArgsTags rawEvent = map slotTag (wireArgs (readArgFromBuff t) (Argnum ctx) dataBuff)) \<and>
         (\<forall>ctx' args'.
            (\<exists>r. buildArgs t (rawEvent\<lparr>Ctx := ctx', RawArgs := args'\<rparr>) = Inr r) =
            (Argnum (Ctx rawEvent) \<le> Argnum ctx'))"
proof -
  from assms obtain ctx dataBuff where h: "readContext t dataRaw = Inr (ctx, dataBuff)"
    by (cases "readContext t dataRaw") (auto simp: decodeRawEvent_body_def)
  let ?rs = "wireArgs (readArgFromBuff t) (Argnum ctx) dataBuff"
  from assms have ev: "rawEvent =
      \<lparr>Ctx = ctx, RawArgs = wireMap Map.empty ?rs, ArgsTags = map slotTag ?rs\<rparr>"
    unfolding decodeRawEvent_body_wire [OF h] by simp
  have len: "length (ArgsTags rawEvent) = Argnum (Ctx rawEvent)"
    by (simp add: ev length_wireArgs)
  have "(\<exists>r. buildArgs t (rawEvent\<lparr>Ctx := ctx', RawArgs := args'\<rparr>) = Inr r) =
      (Argnum (Ctx rawEvent) \<le> Argnum ctx')" for ctx' args'
  proof (cases "Argnum (Ctx rawEvent) \<le> Argnum ctx'")
    case True
    with len buildArgs_fits [of "rawEvent\<lparr>Ctx := ctx', RawArgs := args'\<rparr>" t]
    show ?thesis by simp
  next
    case False
    with len buildArgs_short [of "rawEvent\<lparr>Ctx := ctx', RawArgs := args'\<rparr>" t]
    show ?thesis by simp
  qed
  with len h ev show ?thesis by simp
qed

theorem decoded_tags_match_argument_count_witness:
  "decodeRawEvent_body sampleTracee [7, 2, 0, 0, 0, 0, 255, 1, 5, 9] =
     Inr ([''unknown argument type''],
          Some \<lparr>Ctx = \<lparr>Ts = 0, Pid = 0, Tid = 0, EventID = 7, Argnum = 2,
                       StackID = [0, 0, 0, 0]\<rparr>,
                RawArgs = [5 \<mapsto> 9], ArgsTags = [0, 5]\<rparr>) \<and>
   length [0, 5 :: argTag] = 2 \<and>
   (\<exists>r. buildArgs sampleTracee
     \<lparr>Ctx = \<lparr>Ts = 0, Pid = 0, Tid = 0, EventID = 7, Argnum = 2, StackID = [0, 0, 0, 0]\<rparr>,
      RawArgs = [5 \<mapsto> 9], ArgsTags = [0, 5]\<rparr> = Inr r) \<and>
   buildArgs sampleTracee
     \<lparr>Ctx = \<lparr>Ts = 0, Pid = 0, Tid = 0, EventID = 7, Argnum = 2, StackID = [0, 0, 0, 0]\<rparr>,
      RawArgs = [5 \<mapsto> 9], ArgsTags = [0, 5]\<rparr> =
     Inr ([None, Some 9], ['''', ''''],
          [''Invalid arg tag for event 7'', ''Invalid arg tag for event 7''])"
proof -
  let ?ctx = "\<lparr>Ts = 0, Pid = 0, Tid = 0, EventID = 7, Argnum = 2, StackID = [0, 0, 0, 0 :: byte]\<rparr>"
  let ?ev = "\<lparr>Ctx = ?ctx, RawArgs = [5 \<mapsto> 9 :: byte], ArgsTags = [0, 5 :: argTag]\<rparr>"
  have h: "readContext sampleTracee [7, 2, 0, 0, 0, 0, 255, 1, 5, 9] = Inr (?ctx, [255, 1, 5, 9])"
    by (simp add: sampleTracee_def)
  have w: "wireArgs (readArgFromBuff sampleTracee) (Argnum ?ctx) [255, 1, 5, 9] =
      [Inl ''unknown argument type'', Inr (5, 9)]"
    by (simp add: sampleTracee_def wireArgs_numeral)
  have d: "decodeRawEvent_body sampleTracee [7, 2, 0, 0, 0, 0, 255, 1, 5, 9] =
      Inr ([''unknown argument type''], Some ?ev)"
    unfolding decodeRawEvent_body_wire [OF h] w by simp
  have b: "buildArgs sampleTracee ?ev =
      Inr ([None, Some 9], ['''', ''''],
           [''Invalid arg tag for event 7'', ''Invalid arg tag for event 7''])"
    by (simp add: buildArgs_fits slotName_def sampleTracee_def signed_modulo_int_def
        fmt_d_def decDigit_def)
  from decoded_tags_match_argument_count [OF d]
  have "(\<exists>r. buildArgs sampleTracee (?ev\<lparr>Ctx := ?ctx, RawArgs := [5 \<mapsto> 9]\<rparr>) = Inr r) =
      (Argnum (Ctx ?ev) \<le> Argnum ?ctx)"
    by blast
  then have "\<exists>r. buildArgs sampleTracee ?ev = Inr r"
    by simp
  with d b show ?thesis
    by simp
qed

text \<open>
  The claim as stated fails where a hook lowers the count: the decoder emits an event
  with two tags and the count 2, the mutation hook sets the count to 1, and the print
  preparer's loop indexes its slices of length 1 at 1; the goroutine panics.
\<close>

theorem lowered_argument_count_counterexample:
  "decodeRawEvent_body sampleTraceeLowering [7, 2, 0, 0, 0, 0, 1, 10, 2, 20] =
     Inr ([], Some \<lparr>Ctx = \<lparr>Ts = 0, Pid = 0, Tid = 0, EventID = 7, Argnum = 2,
                            StackID = [0, 0, 0, 0]\<rparr>,
                     RawArgs = [1 \<mapsto> 10, 2 \<mapsto> 20], ArgsTags = [1, 2]\<rparr>) \<and>
   processRawEvent_body sampleTraceeLowering 0
     \<lparr>Ctx = \<lparr>Ts = 0, Pid = 0, Tid = 0, EventID = 7, Argnum = 2, StackID = [0, 0, 0, 0]\<rparr>,
      RawArgs = [1 \<mapsto> 10, 2 \<mapsto> 20], ArgsTags = [1, 2]\<rparr> =
     (1, [], Some \<lparr>Ctx = \<lparr>Ts = 0, Pid = 0, Tid = 0, EventID = 7, Argnum = 1,
                          StackID = [0, 0, 0, 0]\<rparr>,
                   RawArgs = [1 \<mapsto> 10, 2 \<mapsto> 20], ArgsTags = [1, 2]\<rparr>) \<and>
   prepareEventForPrint_body sampleTraceeLowering 1
     \<lparr>Ctx = \<lparr>Ts = 0, Pid = 0, Tid = 0, EventID = 7, Argnum = 1, StackID = [0, 0, 0, 0]\<rparr>,
      RawArgs = [1 \<mapsto> 10, 2 \<mapsto> 20], ArgsTags = [1, 2]\<rparr> = Inl IndexOutOfRange \<and>
   crashed (run sampleTraceeLowering [Decode, Process, Prepare]
      (start 0 [[7, 2, 0, 0, 0, 0, 1, 10, 2, 20]])) = Some IndexOutOfRange"
proof -
  let ?ctx = "\<lparr>Ts = 0, Pid = 0, Tid = 0, EventID = 7, Argnum = 2, StackID = [0, 0, 0, 0 :: byte]\<rparr>"
  let ?ctx' = "\<lparr>Ts = 0, Pid = 0, Tid = 0, EventID = 7, Argnum = 1, StackID = [0, 0, 0, 0 :: byte]\<rparr>"
  let ?ev = "\<lparr>Ctx = ?ctx, RawArgs = [1 \<mapsto> 10, 2 \<mapsto> 20 :: byte], ArgsTags = [1, 2 :: argTag]\<rparr>"
  let ?ev' = "\<lparr>Ctx = ?ctx', RawArgs = [1 \<mapsto> 10, 2 \<mapsto> 20 :: byte], ArgsTags = [1, 2 :: argTag]\<rparr>"
  have h: "readContext sampleTraceeLowering [7, 2, 0, 0, 0, 0, 1, 10, 2, 20] =
      Inr (?ctx, [1, 10, 2, 20])"
    by (simp add: sampleTraceeLowering_def sampleTracee_def)
  have w: "wireArgs (readArgFromBuff sampleTraceeLowering) (Argnum ?ctx) [1, 10, 2, 20] =
      [Inr (1, 10), Inr (2, 20)]"
    by (simp add: sampleTraceeLowering_def sampleTracee_def wireArgs_numeral)
  have d: "decodeRawEvent_body sampleTraceeLowering [7, 2, 0, 0, 0, 0, 1, 10, 2, 20] =
      Inr ([], Some ?ev)"
    unfolding decodeRawEvent_body_wire [OF h] w by simp
  have r: "processRawEvent_body sampleTraceeLowering 0 ?ev = (1, [], Some ?ev')"
    by (simp add: processRawEvent_body_def sampleTraceeLowering_def sampleTracee_def)
  have short: "buildArgs sampleTraceeLowering ?ev' = Inl IndexOutOfRange"
    by (rule buildArgs_short) simp
  have sp: "shouldPrintEvent sampleTraceeLowering 1 ?ev'"
    by (simp add: sampleTraceeLowering_def sampleTracee_def)
  have pa: "prepareArgsForPrint sampleTraceeLowering 1 (Ctx ?ev') (RawArgs ?ev') =
      (1, Ctx ?ev', RawArgs ?ev', None)"
    by (simp add: sampleTraceeLowering_def sampleTracee_def)
  have q: "prepareEventForPrint_body sampleTraceeLowering 1 ?ev' = Inl IndexOutOfRange"
    using sp pa short by (simp add: prepareEventForPrint_body_def)
  have c: "crashed (run sampleTraceeLowering [Decode, Process, Prepare]
      (start 0 [[7, 2, 0, 0, 0, 0, 1, 10, 2, 20]])) = Some IndexOutOfRange"
    using d r q by (simp add: start_def)
  from d r q c show ?thesis
    by (simp only: simp_thms)
qed




text \<open>
  C3, as the code has it. For an event that passes the print predicate and the
  formatting hook, whose tag sequence fits the argument count and whose stack lookup does
  not panic: if the \<open>i\<close>-th tag has no name in the selected table, the error
  \<^verbatim>\<open>Invalid arg tag for event <id>\<close> is sent, the loop goes on with the remaining tags
  (every slot gets the name of its tag, this one stays empty), and \<^verbatim>\<open>newEvent\<close> is still
  called with the names and values so built; its event is sent on, and only an error of
  \<^verbatim>\<open>newEvent\<close> itself drops the event.
\<close>

theorem unresolved_tag_keeps_event:
  assumes "shouldPrintEvent t s rawEvent"
    and "prepareArgsForPrint t s (Ctx rawEvent) (RawArgs rawEvent) = (s', ctx', args', None)"
    and "length (ArgsTags rawEvent) \<le> Argnum ctx'"
    and "getStackTrace t (StackID ctx') = Inr (stackTrace, x)"
    and "i < length (ArgsTags rawEvent)"
    and "DecParamName t (EventID ctx' smod 2) (ArgsTags rawEvent ! i) = None"
  shows "\<exists>args argsNames errs.
           buildArgs t (rawEvent\<lparr>Ctx := ctx', RawArgs := args'\<rparr>) = Inr (args, argsNames, errs) \<and>
           errs = tagErrors t ctx' (ArgsTags rawEvent) \<and>
           (''Invalid arg tag for event '' @ fmt_d (EventID ctx')) \<in> set errs \<and>
           argsNames ! i = '''' \<and>
           argsNames = map (slotName t ctx') (ArgsTags rawEvent) @
             replicate (Argnum ctx' - length (ArgsTags rawEvent)) '''' \<and>
           args = map args' (ArgsTags rawEvent) @
             replicate (Argnum ctx' - length (ArgsTags rawEvent)) None \<and>
           prepareEventForPrint_body t s rawEvent =
             (case newEvent t ctx' argsNames args stackTrace of
                Inl err \<Rightarrow> Inr (s', errs @ [err], None)
              | Inr evt \<Rightarrow> Inr (s', errs, Some evt))"
proof -
  let ?e = "rawEvent\<lparr>Ctx := ctx', RawArgs := args'\<rparr>"
  let ?tags = "ArgsTags rawEvent"
  let ?names = "map (slotName t ctx') ?tags @ replicate (Argnum ctx' - length ?tags) ''''"
  let ?args = "map args' ?tags @ replicate (Argnum ctx' - length ?tags) None"
  let ?errs = "tagErrors t ctx' ?tags"
  have b: "buildArgs t ?e = Inr (?args, ?names, ?errs)"
    using assms(3) buildArgs_fits [of ?e t] by simp
  have err: "(''Invalid arg tag for event '' @ fmt_d (EventID ctx')) \<in> set ?errs"
    using assms(5,6) by (rule tagErrors_mem)
  have "?names ! i = slotName t ctx' (?tags ! i)"
    using assms(5) by (simp add: nth_append)
  then have hole: "?names ! i = ''''"
    using assms(6) by (simp add: slotName_def)
  have "prepareEventForPrint_body t s rawEvent =
      (case newEvent t ctx' ?names ?args stackTrace of
         Inl err \<Rightarrow> Inr (s', ?errs @ [err], None)
       | Inr evt \<Rightarrow> Inr (s', ?errs, Some evt))"
    using assms(1,2,4) b by (simp add: prepareEventForPrint_body_def)
  with b err hole show ?thesis by blast
qed

theorem unresolved_tag_keeps_event_witness:
  "shouldPrintEvent sampleTracee (0 :: nat)
     \<lparr>Ctx = \<lparr>Ts = 0, Pid = 0, Tid = 0, EventID = 7, Argnum = 2, StackID = [0, 0, 0, 0]\<rparr>,
      RawArgs = [1 \<mapsto> 10, 9 \<mapsto> 20], ArgsTags = [1, 9]\<rparr> \<and>
   prepareArgsForPrint sampleTracee (0 :: nat)
     \<lparr>Ts = 0, Pid = 0, Tid = 0, EventID = 7, Argnum = 2, StackID = [0, 0, 0, 0]\<rparr>
     [1 \<mapsto> 10, 9 \<mapsto> 20] =
     (0, \<lparr>Ts = 0, Pid = 0, Tid = 0, EventID = 7, Argnum = 2, StackID = [0, 0, 0, 0]\<rparr>,
      [1 \<mapsto> 10, 9 \<mapsto> 20], None) \<and>
   length [1, 9 :: argTag] \<le> 2 \<and>
   getStackTrace sampleTracee [0, 0, 0, 0] = Inr ('''', None) \<and>
   (1 :: nat) < length [1, 9 :: argTag] \<and>
   DecParamName sampleTracee (7 smod 2) ([1, 9] ! 1) = None \<and>
   prepareEventForPrint_body sampleTracee 0
     \<lparr>Ctx = \<lparr>Ts = 0, Pid = 0, Tid = 0, EventID = 7, Argnum = 2, StackID = [0, 0, 0, 0]\<rparr>,
      RawArgs = [1 \<mapsto> 10, 9 \<mapsto> 20], ArgsTags = [1, 9]\<rparr> =
   Inr (0, [''Invalid arg tag for event 7''],
        Some (\<lparr>Ts = 0, Pid = 0, Tid = 0, EventID = 7, Argnum = 2, StackID = [0, 0, 0, 0]\<rparr>,
              [''fd'', ''''], [Some 10, Some 20], ''''))"
proof -
  let ?ctx = "\<lparr>Ts = 0, Pid = 0, Tid = 0, EventID = 7, Argnum = 2, StackID = [0, 0, 0, 0 :: byte]\<rparr>"
  let ?ev = "\<lparr>Ctx = ?ctx, RawArgs = [1 \<mapsto> 10, 9 \<mapsto> 20 :: byte], ArgsTags = [1, 9 :: argTag]\<rparr>"
  have h1: "shouldPrintEvent sampleTracee (0 :: nat) ?ev"
    by (simp add: sampleTracee_def)
  have h2: "prepareArgsForPrint sampleTracee (0 :: nat) (Ctx ?ev) (RawArgs ?ev) =
      (0, ?ctx, [1 \<mapsto> 10, 9 \<mapsto> 20], None)"
    by (simp add: sampleTracee_def)
  have h3: "length (ArgsTags ?ev) \<le> Argnum ?ctx"
    by simp
  have h4: "getStackTrace sampleTracee (StackID ?ctx) = Inr ('''', None)"
    by (simp add: getStackTrace_def sampleTracee_def)
  have h5: "1 < length (ArgsTags ?ev)"
    by simp
  have h6: "DecParamName sampleTracee (EventID ?ctx smod 2) (ArgsTags ?ev ! 1) = None"
    by (simp add: sampleTracee_def signed_modulo_int_def)
  have e: "tagErrors sampleTracee ?ctx [1, 9] = [''Invalid arg tag for event 7'']"
    by (simp add: sampleTracee_def signed_modulo_int_def fmt_d_def decDigit_def)
  have n: "newEvent sampleTracee = (\<lambda>ctx argsNames args stackTrace. Inr (ctx, argsNames, args, stackTrace))"
    by (simp add: sampleTracee_def)
  from unresolved_tag_keeps_event [OF h1 h2 h3 h4 h5 h6]
  obtain args argsNames errs where
    er: "errs = tagErrors sampleTracee ?ctx (ArgsTags ?ev)"
    and nm: "argsNames = map (slotName sampleTracee ?ctx) (ArgsTags ?ev) @
      replicate (Argnum ?ctx - length (ArgsTags ?ev)) ''''"
    and ar: "args = map [1 \<mapsto> 10, 9 \<mapsto> 20] (ArgsTags ?ev) @
      replicate (Argnum ?ctx - length (ArgsTags ?ev)) None"
    and body: "prepareEventForPrint_body sampleTracee 0 ?ev =
      (case newEvent sampleTracee ?ctx argsNames args '''' of
         Inl err \<Rightarrow> Inr (0, errs @ [err], None)
       | Inr evt \<Rightarrow> Inr (0, errs, Some evt))"
    by blast
  have er': "errs = [''Invalid arg tag for event 7'']"
    using er e by simp
  have nm': "argsNames = [''fd'', '''']"
    using nm by (simp add: slotName_def sampleTracee_def signed_modulo_int_def)
  have ar': "args = [Some 10, Some 20]"
    using ar by simp
  have "prepareEventForPrint_body sampleTracee 0 ?ev =
      Inr (0, [''Invalid arg tag for event 7''], Some (?ctx, [''fd'', ''''], [Some 10, Some 20], ''''))"
    unfolding body er' nm' ar' n by simp
  with h1 h2 h3 h4 h5 h6 show ?thesis
    by simp
qed

text \<open>
  The claim as stated fails in four ways, each at the event with the identifier 7, the
  tags 1 and 9 and the argument count 2, whose tag 9 has no name in the table of 7, and
  which passes the print predicate and the formatting hook:
  \<^item> the error that is sent reads \<^verbatim>\<open>Invalid arg tag for event 7\<close>, not
    \<^verbatim>\<open>invalid argument tag for event 7\<close>;
  \<^item> where \<^verbatim>\<open>newEvent\<close> returns an error (lines 173 to 177), that error is sent after the
    one of the tag and no event is forwarded;
  \<^item> where the formatting hook lowered the argument count to 1, the loop panics at the
    second slot (line 159), before the tag 9 is looked up: no error is sent and no event
    is built;
  \<^item> where the stack lookup panics (a platform with four-byte words), no event is built.
\<close>

theorem unresolved_tag_counterexample:
  "DecParamName sampleTracee (7 smod 2) 9 = None \<and>
   prepareEventForPrint_body sampleTracee 0
     \<lparr>Ctx = \<lparr>Ts = 0, Pid = 0, Tid = 0, EventID = 7, Argnum = 2, StackID = [0, 0, 0, 0]\<rparr>,
      RawArgs = [1 \<mapsto> 10, 9 \<mapsto> 20], ArgsTags = [1, 9]\<rparr> =
     Inr (0, [''Invalid arg tag for event 7''],
          Some (\<lparr>Ts = 0, Pid = 0, Tid = 0, EventID = 7, Argnum = 2, StackID = [0, 0, 0, 0]\<rparr>,
                [''fd'', ''''], [Some 10, Some 20], '''')) \<and>
   ''invalid argument tag for event 7'' \<notin> set [''Invalid arg tag for event 7''] \<and>
   prepareEventForPrint_body sampleTraceeNoEvent 0
     \<lparr>Ctx = \<lparr>Ts = 0, Pid = 0, Tid = 0, EventID = 7, Argnum = 2, StackID = [0, 0, 0, 0]\<rparr>,
      RawArgs = [1 \<mapsto> 10, 9 \<mapsto> 20], ArgsTags = [1, 9]\<rparr> =
     Inr (0, [''Invalid arg tag for event 7'', ''no event''], None) \<and>
   prepareEventForPrint_body sampleTraceeTrimming 0
     \<lparr>Ctx = \<lparr>Ts = 0, Pid = 0, Tid = 0, EventID = 7, Argnum = 2, StackID = [0, 0, 0, 0]\<rparr>,
      RawArgs = [1 \<mapsto> 10, 9 \<mapsto> 20], ArgsTags = [1, 9]\<rparr> = Inl IndexOutOfRange \<and>
   prepareEventForPrint_body sampleTracee32 0
     \<lparr>Ctx = \<lparr>Ts = 0, Pid = 0, Tid = 0, EventID = 7, Argnum = 2, StackID = [0, 0, 0, 0]\<rparr>,
      RawArgs = [1 \<mapsto> 10, 9 \<mapsto> 20], ArgsTags = [1, 9]\<rparr> = Inl IndexOutOfRange"
proof -
  let ?ctx = "\<lparr>Ts = 0, Pid = 0, Tid = 0, EventID = 7, Argnum = 2, StackID = [0, 0, 0, 0 :: byte]\<rparr>"
  let ?ev = "\<lparr>Ctx = ?ctx, RawArgs = [1 \<mapsto> 10, 9 \<mapsto> 20 :: byte], ArgsTags = [1, 9 :: argTag]\<rparr>"
  have t9: "DecParamName sampleTracee (7 smod 2) 9 = None"
    by (simp add: sampleTracee_def signed_modulo_int_def)
  have a: "prepareEventForPrint_body sampleTracee 0 ?ev =
      Inr (0, [''Invalid arg tag for event 7''],
           Some (?ctx, [''fd'', ''''], [Some 10, Some 20], ''''))"
    by (simp add: prepareEventForPrint_body_def buildArgs_fits getStackTrace_def slotName_def
        sampleTracee_def signed_modulo_int_def fmt_d_def decDigit_def)
  have m: "''invalid argument tag for event 7'' \<notin> set [''Invalid arg tag for event 7'']"
    by simp
  have b: "prepareEventForPrint_body sampleTraceeNoEvent 0 ?ev =
      Inr (0, [''Invalid arg tag for event 7'', ''no event''], None)"
    by (simp add: prepareEventForPrint_body_def buildArgs_fits getStackTrace_def slotName_def
        sampleTraceeNoEvent_def sampleTracee_def signed_modulo_int_def fmt_d_def decDigit_def)
  have short: "buildArgs sampleTraceeTrimming
      \<lparr>Ctx = \<lparr>Ts = 0, Pid = 0, Tid = 0, EventID = 7, Argnum = 1, StackID = [0, 0, 0, 0 :: byte]\<rparr>,
       RawArgs = [1 \<mapsto> 10, 9 \<mapsto> 20 :: byte], ArgsTags = [1, 9 :: argTag]\<rparr> =
      Inl IndexOutOfRange"
    by (rule buildArgs_short) simp
  have sp: "shouldPrintEvent sampleTraceeTrimming 0 ?ev"
    by (simp add: sampleTraceeTrimming_def sampleTracee_def)
  have pa: "prepareArgsForPrint sampleTraceeTrimming 0 (Ctx ?ev) (RawArgs ?ev) =
      (0, \<lparr>Ts = 0, Pid = 0, Tid = 0, EventID = 7, Argnum = 1, StackID = [0, 0, 0, 0]\<rparr>,
       RawArgs ?ev, None)"
    by (simp add: sampleTraceeTrimming_def sampleTracee_def)
  have c: "prepareEventForPrint_body sampleTraceeTrimming 0 ?ev = Inl IndexOutOfRange"
    using sp pa short by (simp add: prepareEventForPrint_body_def)
  have loop: "stackLoop Int32 [16, 0, 0, 0, 32, 0, 0, 0, 0, 0, 0, 0, 48, 0, 0, 0] 0 '''' =
      Inl IndexOutOfRange"
    by (subst stackLoop.simps) (simp add: stackFrameSize_def slice_def Uint64_def)
  have st: "getStackTrace sampleTracee32 [0, 0, 0, 0] = Inl IndexOutOfRange"
    using loop by (simp add: getStackTrace_def sampleTracee32_def sampleTracee_def)
  have fits: "buildArgs sampleTracee32 ?ev =
      Inr ([Some 10, Some 20], [''fd'', ''''], [''Invalid arg tag for event 7''])"
    by (simp add: buildArgs_fits slotName_def sampleTracee32_def sampleTracee_def
        signed_modulo_int_def fmt_d_def decDigit_def)
  have sp32: "shouldPrintEvent sampleTracee32 0 ?ev"
    by (simp add: sampleTracee32_def sampleTracee_def)
  have pa32: "prepareArgsForPrint sampleTracee32 0 (Ctx ?ev) (RawArgs ?ev) =
      (0, Ctx ?ev, RawArgs ?ev, None)"
    by (simp add: sampleTracee32_def sampleTracee_def)
  have d: "prepareEventForPrint_body sampleTracee32 0 ?ev = Inl IndexOutOfRange"
    using sp32 pa32 fits st by (simp add: prepareEventForPrint_body_def)
  from t9 a m b c d show ?thesis
    by (simp only: simp_thms)
qed

subsection \<open>The stack-trace resolver\<close>

lemma length_PutUint64: "length (PutUint64 v) = 8"
  by (simp add: PutUint64_def)

lemma bit_byte_at:
  "bit (push_bit k (ucast (ucast (drop_bit k v :: 64 word) :: byte) :: 64 word)) n \<longleftrightarrow>
     k \<le> n \<and> n < k + 8 \<and> n < 64 \<and> bit v n"
  by (auto simp: bit_simps)

lemma bit_byte_0:
  "bit (ucast (ucast (v :: 64 word) :: byte) :: 64 word) n \<longleftrightarrow> n < 8 \<and> bit v n"
  by (auto simp: bit_simps dest: bit_imp_le_length)

text \<open>Reading eight bytes back gives the word they were written from.\<close>

lemma Uint64_PutUint64: "Uint64 (PutUint64 v) = Inr v"
proof -
  have "(ucast (ucast v :: byte) OR push_bit 8 (ucast (ucast (drop_bit 8 v) :: byte)) OR
     push_bit 16 (ucast (ucast (drop_bit 16 v) :: byte)) OR
     push_bit 24 (ucast (ucast (drop_bit 24 v) :: byte)) OR
     push_bit 32 (ucast (ucast (drop_bit 32 v) :: byte)) OR
     push_bit 40 (ucast (ucast (drop_bit 40 v) :: byte)) OR
     push_bit 48 (ucast (ucast (drop_bit 48 v) :: byte)) OR
     push_bit 56 (ucast (ucast (drop_bit 56 v) :: byte)) :: 64 word) = v"
  proof (rule bit_word_eqI)
    fix n :: nat
    assume "n < LENGTH(64)"
    then have n: "n < 64" by simp
    show "bit (ucast (ucast v :: byte) OR push_bit 8 (ucast (ucast (drop_bit 8 v) :: byte)) OR
       push_bit 16 (ucast (ucast (drop_bit 16 v) :: byte)) OR
       push_bit 24 (ucast (ucast (drop_bit 24 v) :: byte)) OR
       push_bit 32 (ucast (ucast (drop_bit 32 v) :: byte)) OR
       push_bit 40 (ucast (ucast (drop_bit 40 v) :: byte)) OR
       push_bit 48 (ucast (ucast (drop_bit 48 v) :: byte)) OR
       push_bit 56 (ucast (ucast (drop_bit 56 v) :: byte)) :: 64 word) n = bit v n"
      unfolding bit_or_iff bit_byte_at bit_byte_0 using n by (cases "bit v n") auto
  qed
  then show ?thesis
    by (simp add: Uint64_def PutUint64_def)
qed

lemma slice_window:
  "slice (pb @ PutUint64 w @ rest) (length pb) (length pb + 8) = Inr (PutUint64 w)"
  by (simp add: slice_def length_PutUint64)

text \<open>
  On a 64-bit platform the loop, standing at a word boundary of a buffer of whole words,
  renders the words up to the first zero word or the end of the buffer.
\<close>

lemma stackLoop_words:
  "stackLoop Int64 (pb @ concat (map PutUint64 ws)) (length pb) acc =
     Inr (acc @ concat (map (\<lambda>w. hexAddr w @ '','') (takeWhile (\<lambda>w. w \<noteq> 0) ws)))"
proof (induction ws arbitrary: pb acc)
  case Nil
  show ?case by (subst stackLoop.simps) simp
next
  case (Cons w ws)
  show ?case
  proof (cases "w = 0")
    case True
    show ?thesis
      by (subst stackLoop.simps)
        (simp add: True stackFrameSize_def slice_window Uint64_PutUint64 length_PutUint64)
  next
    case False
    have "stackLoop Int64 (pb @ concat (map PutUint64 (w # ws))) (length pb) acc =
        stackLoop Int64 ((pb @ PutUint64 w) @ concat (map PutUint64 ws))
          (length (pb @ PutUint64 w)) (acc @ ''0x'' @ hexUpper (unat w) @ '','')"
      by (subst stackLoop.simps)
        (simp add: False stackFrameSize_def slice_window Uint64_PutUint64 length_PutUint64)
    also have "\<dots> = Inr ((acc @ ''0x'' @ hexUpper (unat w) @ '','') @
        concat (map (\<lambda>w. hexAddr w @ '','') (takeWhile (\<lambda>w. w \<noteq> 0) ws)))"
      by (rule Cons.IH)
    finally show ?thesis
      using False by (simp add: hexAddr_def)
  qed
qed

lemma concat_commas:
  "xs \<noteq> [] \<Longrightarrow> concat (map (\<lambda>x. f x @ '','') xs) = joinComma (map f xs) @ '',''"
proof (induction xs)
  case Nil
  then show ?case by simp
next
  case (Cons x xs)
  then show ?case by (cases xs) simp_all
qed

lemma TrimSuffix_commas:
  "TrimSuffix (concat (map (\<lambda>x. f x @ '','') xs)) '','' = joinComma (map f xs)"
proof (cases xs)
  case Nil
  then show ?thesis by (simp add: TrimSuffix_def)
next
  case (Cons x ys)
  then have "concat (map (\<lambda>x. f x @ '','') xs) = joinComma (map f xs) @ '',''"
    by (intro concat_commas) simp
  then show ?thesis by (simp add: TrimSuffix_def)
qed

text \<open>
  On a 32-bit platform the first pass of the loop panics: the window is four bytes (or
  the slice expression is out of bounds on a shorter buffer), and \<open>Uint64\<close> needs eight.
\<close>

lemma stackLoop_Int32:
  "stackBytes \<noteq> [] \<Longrightarrow> stackLoop Int32 stackBytes 0 acc =
     Inl (if length stackBytes < 4 then SliceBoundsOutOfRange else IndexOutOfRange)"
  by (subst stackLoop.simps) (simp add: stackFrameSize_def slice_def Uint64_def)

text \<open>
  The stack-trace resolver on a 64-bit platform: for a buffer of whole words the trace is
  the addresses before the first zero word, each as \<^verbatim>\<open>0x<HEX>\<close>, joined by commas.
\<close>

lemma getStackTrace_words:
  assumes "strconv t = Int64" and "GetMap t ''stack_traces'' = Inr GetValue"
    and "GetValue (take 4 stackID) (stackFrameSize (strconv t) * maxStackDepth) =
      Inr (concat (map PutUint64 ws))"
  shows "getStackTrace t stackID =
     Inr (joinComma (map hexAddr (takeWhile (\<lambda>w. w \<noteq> 0) ws)), None)"
  using assms stackLoop_words [of "[]" ws "''''"]
  by (simp add: getStackTrace_def TrimSuffix_commas)

lemma sampleStackBytes_words: "sampleStackBytes = concat (map PutUint64 [0x10, 0x20, 0, 0x30])"
  by (simp add: sampleStackBytes_def PutUint64_def drop_bit_eq_div)

text \<open>The example of the spec, on a 64-bit platform.\<close>

lemma getStackTrace_sample: "getStackTrace sampleTracee [1, 0, 0, 0] = Inr (''0x10,0x20'', None)"
proof -
  have "getStackTrace sampleTracee [1, 0, 0, 0] =
      Inr (joinComma (map hexAddr (takeWhile (\<lambda>w. w \<noteq> 0) [0x10, 0x20, 0, 0x30])), None)"
    by (rule getStackTrace_words [where GetValue = "\<lambda>key size.
          if key = [1, 0, 0, 0] then Inr sampleStackBytes else Inl ''no such key''"])
      (simp_all add: sampleTracee_def sampleStackBytes_words)
  then show ?thesis
    by (simp add: hexAddr_def hexDigit_def)
qed

text \<open>
  C5 says that the resolver decodes consecutive little-endian words and renders the
  addresses before the first zero word, \<^verbatim>\<open>0x10,0x20\<close> for the words 0x10, 0x20, 0, 0x30.
  The code does not do so on a platform whose word size is four bytes: there the stack
  table returns the four addresses as four-byte words, the loop steps by four bytes and
  hands a four-byte window to \<open>Uint64\<close>, which panics, and no trace string is returned.
  (On a platform whose word size is eight bytes the code does what C5 says, see
  \<open>stack_trace_of_words_on_64_bit\<close> below.)
\<close>

theorem getStackTrace_panics_on_32_bit_words:
  "getStackTrace sampleTracee32 [1, 0, 0, 0] = Inl IndexOutOfRange"
proof -
  have "stackLoop Int32 [16, 0, 0, 0, 32, 0, 0, 0, 0, 0, 0, 0, 48, 0, 0, 0] 0 '''' =
      Inl IndexOutOfRange"
    by (simp add: stackLoop_Int32)
  then show ?thesis
    by (simp add: getStackTrace_def sampleTracee32_def sampleTracee_def)
qed

text \<open>
  On a platform whose word size is eight bytes, for every stack buffer of whole words
  that the table returns, the resolver renders the addresses before the first zero word
  (or all of them, when there is none), each as \<^verbatim>\<open>0x<HEX>\<close> in upper case, joined by commas
  with no trailing comma; for the words 0x10, 0x20, 0, 0x30 the trace is \<^verbatim>\<open>0x10,0x20\<close>.
\<close>

theorem stack_trace_of_words_on_64_bit:
  assumes "strconv t = Int64"
    and "GetMap t ''stack_traces'' = Inr GetValue"
    and "GetValue (take 4 stackID) (stackFrameSize (strconv t) * maxStackDepth) =
      Inr (concat (map PutUint64 ws))"
  shows "getStackTrace t stackID =
     Inr (joinComma (map hexAddr (takeWhile (\<lambda>w. w \<noteq> 0) ws)), None)"
  using assms by (rule getStackTrace_words)

theorem stack_trace_of_words_on_64_bit_witness:
  "strconv sampleTracee = Int64 \<and>
   GetMap sampleTracee ''stack_traces'' =
     Inr (\<lambda>key size. if key = [1, 0, 0, 0] then Inr sampleStackBytes else Inl ''no such key'') \<and>
   sampleStackBytes = concat (map PutUint64 [0x10, 0x20, 0, 0x30]) \<and>
   getStackTrace sampleTracee [1, 0, 0, 0] = Inr (''0x10,0x20'', None)"
proof -
  let ?gv = "\<lambda>(key :: byte list) (size :: nat).
    if key = [1, 0, 0, 0] then Inr sampleStackBytes else Inl ''no such key''"
  have h1: "strconv sampleTracee = Int64"
    and h2: "GetMap sampleTracee ''stack_traces'' = Inr ?gv"
    by (simp_all add: sampleTracee_def)
  have h3: "?gv (take 4 [1, 0, 0, 0]) (stackFrameSize (strconv sampleTracee) * maxStackDepth) =
      Inr (concat (map PutUint64 [0x10, 0x20, 0, 0x30]))"
    by (simp add: sampleStackBytes_words)
  from stack_trace_of_words_on_64_bit [OF h1 h2 h3]
  have "getStackTrace sampleTracee [1, 0, 0, 0] = Inr (''0x10,0x20'', None)"
    by (simp add: hexAddr_def hexDigit_def)
  with h1 h2 sampleStackBytes_words show ?thesis
    by simp
qed

text \<open>
  C6. If the stack-trace table cannot be obtained, or the lookup of the identifier in it
  fails, the resolver returns the empty string and a nil error; and whenever the resolver
  returns, the error it returns is nil.
\<close>

theorem lookup_failure_gives_empty_trace:
  "((\<exists>err. GetMap t ''stack_traces'' = Inl err) \<or>
    (\<exists>GetValue err. GetMap t ''stack_traces'' = Inr GetValue \<and>
       GetValue (take 4 stackID) (stackFrameSize (strconv t) * maxStackDepth) = Inl err) \<longrightarrow>
    getStackTrace t stackID = Inr ('''', None)) \<and>
   (\<forall>trace err. getStackTrace t stackID = Inr (trace, err) \<longrightarrow> err = None)"
proof (intro conjI impI allI)
  assume "(\<exists>err. GetMap t ''stack_traces'' = Inl err) \<or>
    (\<exists>GetValue err. GetMap t ''stack_traces'' = Inr GetValue \<and>
       GetValue (take 4 stackID) (stackFrameSize (strconv t) * maxStackDepth) = Inl err)"
  then show "getStackTrace t stackID = Inr ('''', None)"
  proof
    assume "\<exists>err. GetMap t ''stack_traces'' = Inl err"
    then show ?thesis
      by (auto simp: getStackTrace_def)
  next
    assume "\<exists>GetValue err. GetMap t ''stack_traces'' = Inr GetValue \<and>
       GetValue (take 4 stackID) (stackFrameSize (strconv t) * maxStackDepth) = Inl err"
    then show ?thesis
      by (auto simp: getStackTrace_def)
  qed
next
  fix trace err
  assume "getStackTrace t stackID = Inr (trace, err)"
  then show "err = None"
    by (auto simp: getStackTrace_def split: sum.splits)
qed

theorem lookup_failure_gives_empty_trace_witness:
  "GetMap (sampleTracee\<lparr>GetMap := \<lambda>name. Inl ''no such map''\<rparr>) ''stack_traces'' =
     Inl ''no such map'' \<and>
   getStackTrace (sampleTracee\<lparr>GetMap := \<lambda>name. Inl ''no such map''\<rparr>) [1, 0, 0, 0] =
     Inr ('''', None) \<and>
   GetMap sampleTracee ''stack_traces'' =
     Inr (\<lambda>key size. if key = [1, 0, 0, 0] then Inr sampleStackBytes else Inl ''no such key'') \<and>
   (\<lambda>key size. if key = [1, 0, 0, 0] then Inr sampleStackBytes else Inl ''no such key'')
     (take 4 [9, 0, 0, 0 :: byte]) (stackFrameSize (strconv sampleTracee) * maxStackDepth) =
     Inl ''no such key'' \<and>
   getStackTrace sampleTracee [9, 0, 0, 0] = Inr ('''', None) \<and>
   getStackTrace sampleTracee [1, 0, 0, 0] = Inr (''0x10,0x20'', None)"
proof -
  let ?gv = "\<lambda>(key :: byte list) (size :: nat).
    if key = [1, 0, 0, 0] then Inr sampleStackBytes else Inl ''no such key''"
  let ?t = "sampleTracee\<lparr>GetMap := \<lambda>name. Inl ''no such map''\<rparr>"
  have h0: "GetMap ?t ''stack_traces'' = Inl ''no such map''"
    by simp
  have h1: "GetMap sampleTracee ''stack_traces'' = Inr ?gv"
    by (simp add: sampleTracee_def)
  have h2: "?gv (take 4 [9, 0, 0, 0 :: byte]) (stackFrameSize (strconv sampleTracee) * maxStackDepth) =
      Inl ''no such key''"
    by simp
  from lookup_failure_gives_empty_trace [of ?t "[1, 0, 0, 0]"] h0
  have r0: "getStackTrace ?t [1, 0, 0, 0] = Inr ('''', None)"
    by blast
  from lookup_failure_gives_empty_trace [of sampleTracee "[9, 0, 0, 0]"] h1 h2
  have r1: "getStackTrace sampleTracee [9, 0, 0, 0] = Inr ('''', None)"
    by blast
  from h0 h1 h2 r0 r1 getStackTrace_sample show ?thesis
    by simp
qed

text \<open>
  C9. The loop of the resolver steps by the platform word size but decodes every address
  with \<open>Uint64\<close>, which needs eight bytes. Where the word size is four bytes (a 32-bit
  platform) the window \<^verbatim>\<open>stackBytes[i:i+stackFrameSize]\<close> has fewer than eight bytes, and
  the resolver panics on every buffer that the table returns, unless the buffer is empty;
  it returns no trace string there. Where the word size is eight bytes it returns a
  trace for every buffer of whole words.
\<close>

theorem getStackTrace_total_only_on_64_bit:
  assumes "GetMap t ''stack_traces'' = Inr GetValue"
    and "GetValue (take 4 stackID) (stackFrameSize (strconv t) * maxStackDepth) = Inr stackBytes"
    and "stackBytes \<noteq> []"
  shows "(strconv t = Int32 \<longrightarrow> stackFrameSize (strconv t) = 4 \<and>
            getStackTrace t stackID =
              Inl (if length stackBytes < 4 then SliceBoundsOutOfRange else IndexOutOfRange)) \<and>
         (strconv t = Int64 \<longrightarrow> stackFrameSize (strconv t) = 8 \<and>
            (\<forall>ws. stackBytes = concat (map PutUint64 ws) \<longrightarrow>
               (\<exists>trace. getStackTrace t stackID = Inr (trace, None))))"
proof (cases "strconv t")
  case Int32
  then show ?thesis
    using assms by (simp add: getStackTrace_def stackLoop_Int32 stackFrameSize_def)
next
  case Int64
  have "\<exists>trace. getStackTrace t stackID = Inr (trace, None)"
    if "stackBytes = concat (map PutUint64 ws)" for ws
    using getStackTrace_words [OF Int64 assms(1), of stackID ws] assms(2) that by simp
  with Int64 show ?thesis
    by (simp add: stackFrameSize_def)
qed

theorem getStackTrace_total_only_on_64_bit_witness:
  "GetMap sampleTracee32 ''stack_traces'' =
     Inr (\<lambda>key size. Inr [16, 0, 0, 0, 32, 0, 0, 0, 0, 0, 0, 0, 48, 0, 0, 0]) \<and>
   strconv sampleTracee32 = Int32 \<and>
   [16, 0, 0, 0, 32, 0, 0, 0, 0, 0, 0, 0, 48, 0, 0, 0 :: byte] \<noteq> [] \<and>
   stackFrameSize (strconv sampleTracee32) = 4 \<and>
   getStackTrace sampleTracee32 [1, 0, 0, 0] = Inl IndexOutOfRange \<and>
   strconv sampleTracee = Int64 \<and>
   sampleStackBytes \<noteq> [] \<and>
   sampleStackBytes = concat (map PutUint64 [0x10, 0x20, 0, 0x30]) \<and>
   stackFrameSize (strconv sampleTracee) = 8 \<and>
   (\<exists>trace. getStackTrace sampleTracee [1, 0, 0, 0] = Inr (trace, None))"
proof -
  let ?bs = "[16, 0, 0, 0, 32, 0, 0, 0, 0, 0, 0, 0, 48, 0, 0, 0 :: byte]"
  let ?gv = "\<lambda>(key :: byte list) (size :: nat). (Inr ?bs :: error + byte list)"
  let ?gv' = "\<lambda>(key :: byte list) (size :: nat).
    if key = [1, 0, 0, 0] then Inr sampleStackBytes else Inl ''no such key''"
  have h1: "GetMap sampleTracee32 ''stack_traces'' = Inr ?gv"
    by (simp add: sampleTracee32_def sampleTracee_def)
  have h2: "?gv (take 4 [1, 0, 0, 0]) (stackFrameSize (strconv sampleTracee32) * maxStackDepth) =
      Inr ?bs"
    by simp
  have h3: "?bs \<noteq> []"
    by simp
  have p: "strconv sampleTracee32 = Int32"
    by (simp add: sampleTracee32_def sampleTracee_def)
  have g1: "GetMap sampleTracee ''stack_traces'' = Inr ?gv'"
    by (simp add: sampleTracee_def)
  have g2: "?gv' (take 4 [1, 0, 0, 0]) (stackFrameSize (strconv sampleTracee) * maxStackDepth) =
      Inr sampleStackBytes"
    by simp
  have g3: "sampleStackBytes \<noteq> []"
    by (simp add: sampleStackBytes_def)
  have p': "strconv sampleTracee = Int64"
    by (simp add: sampleTracee_def)
  from getStackTrace_total_only_on_64_bit [OF h1 h2 h3] p
  have r32: "stackFrameSize (strconv sampleTracee32) = 4"
    "getStackTrace sampleTracee32 [1, 0, 0, 0] = Inl IndexOutOfRange"
    by simp_all
  from getStackTrace_total_only_on_64_bit [OF g1 g2 g3] p' sampleStackBytes_words
  have r64: "stackFrameSize (strconv sampleTracee) = 8"
    "\<exists>trace. getStackTrace sampleTracee [1, 0, 0, 0] = Inr (trace, None)"
    by blast+
  from h1 p h3 r32 p' g3 sampleStackBytes_words r64 show ?thesis
    by blast
qed

subsection \<open>The filter and processor\<close>

text \<open>
  C7. With the calls of the mutation hook counted: an event that the process predicate
  rejects is dropped, no error is sent and the hook is not called (the counter and the
  state stay as they were); an event that the predicate accepts has the hook called
  exactly once (the counter goes up by one); if that call returns an error, the error is
  sent on the stage's error channel and the event is not sent on, and otherwise the
  event is sent on as the hook left it.
\<close>

theorem hook_runs_once_per_accepted_event:
  "(\<not> shouldProcessEvent t s rawEvent \<longrightarrow>
      processRawEvent_body (countCalls t) (n, s) rawEvent = ((n, s), [], None)) \<and>
   (shouldProcessEvent t s rawEvent \<longrightarrow>
      (\<exists>s' ctx' args' r.
         processEvent t s (Ctx rawEvent) (RawArgs rawEvent) = (s', ctx', args', r) \<and>
         processRawEvent_body (countCalls t) (n, s) rawEvent =
           ((Suc n, s'),
            (case r of Some err \<Rightarrow> [err] | None \<Rightarrow> []),
            (case r of Some err \<Rightarrow> None
             | None \<Rightarrow> Some (rawEvent\<lparr>Ctx := ctx', RawArgs := args'\<rparr>))))) \<and>
   snd (processRawEvent_body (countCalls t) (n, s) rawEvent) =
     snd (processRawEvent_body t s rawEvent)"
proof (cases "processEvent t s (Ctx rawEvent) (RawArgs rawEvent)")
  case (fields s' ctx' args' r)
  then show ?thesis
    by (cases r) (simp_all add: processRawEvent_body_def countCalls_def)
qed

theorem hook_runs_once_per_accepted_event_witness:
  "\<not> shouldProcessEvent sampleTracee (0 :: nat)
       \<lparr>Ctx = \<lparr>Ts = 0, Pid = 0, Tid = 0, EventID = 0, Argnum = 0, StackID = [0, 0, 0, 0]\<rparr>,
        RawArgs = Map.empty, ArgsTags = []\<rparr> \<and>
   processRawEvent_body (countCalls sampleTracee) (5, 0)
     \<lparr>Ctx = \<lparr>Ts = 0, Pid = 0, Tid = 0, EventID = 0, Argnum = 0, StackID = [0, 0, 0, 0]\<rparr>,
      RawArgs = Map.empty, ArgsTags = []\<rparr> = ((5, 0), [], None) \<and>
   shouldProcessEvent sampleTracee (0 :: nat)
     \<lparr>Ctx = \<lparr>Ts = 0, Pid = 0, Tid = 0, EventID = 1, Argnum = 0, StackID = [0, 0, 0, 0]\<rparr>,
      RawArgs = Map.empty, ArgsTags = []\<rparr> \<and>
   processRawEvent_body (countCalls sampleTracee) (5, 0)
     \<lparr>Ctx = \<lparr>Ts = 0, Pid = 0, Tid = 0, EventID = 1, Argnum = 0, StackID = [0, 0, 0, 0]\<rparr>,
      RawArgs = Map.empty, ArgsTags = []\<rparr> = ((6, 1), [''process failed''], None) \<and>
   shouldProcessEvent sampleTracee (0 :: nat)
     \<lparr>Ctx = \<lparr>Ts = 0, Pid = 0, Tid = 0, EventID = 7, Argnum = 0, StackID = [0, 0, 0, 0]\<rparr>,
      RawArgs = Map.empty, ArgsTags = []\<rparr> \<and>
   processRawEvent_body (countCalls sampleTracee) (5, 0)
     \<lparr>Ctx = \<lparr>Ts = 0, Pid = 0, Tid = 0, EventID = 7, Argnum = 0, StackID = [0, 0, 0, 0]\<rparr>,
      RawArgs = Map.empty, ArgsTags = []\<rparr> =
     ((6, 1), [],
      Some \<lparr>Ctx = \<lparr>Ts = 0, Pid = 0, Tid = 0, EventID = 7, Argnum = 0, StackID = [0, 0, 0, 0]\<rparr>,
            RawArgs = Map.empty, ArgsTags = []\<rparr>)"
proof -
  let ?ev = "\<lambda>k. \<lparr>Ctx = \<lparr>Ts = 0, Pid = 0, Tid = 0, EventID = k, Argnum = 0,
      StackID = [0, 0, 0, 0 :: byte]\<rparr>, RawArgs = (Map.empty :: argTag \<rightharpoonup> byte), ArgsTags = []\<rparr>"
  have h0: "\<not> shouldProcessEvent sampleTracee (0 :: nat) (?ev 0)"
    and h1: "shouldProcessEvent sampleTracee (0 :: nat) (?ev 1)"
    and h7: "shouldProcessEvent sampleTracee (0 :: nat) (?ev 7)"
    by (simp_all add: sampleTracee_def)
  have p1: "processEvent sampleTracee (0 :: nat) (Ctx (?ev 1)) (RawArgs (?ev 1)) =
      (1, Ctx (?ev 1), Map.empty, Some ''process failed'')"
    and p7: "processEvent sampleTracee (0 :: nat) (Ctx (?ev 7)) (RawArgs (?ev 7)) =
      (1, Ctx (?ev 7), Map.empty, None)"
    by (simp_all add: sampleTracee_def)
  from hook_runs_once_per_accepted_event [of sampleTracee 0 "?ev 0" 5] h0
  have r0: "processRawEvent_body (countCalls sampleTracee) (5, 0) (?ev 0) = ((5, 0), [], None)"
    by blast
  from hook_runs_once_per_accepted_event [of sampleTracee 0 "?ev 1" 5] h1 p1
  have r1: "processRawEvent_body (countCalls sampleTracee) (5, 0) (?ev 1) =
      ((6, 1), [''process failed''], None)"
    by auto
  from hook_runs_once_per_accepted_event [of sampleTracee 0 "?ev 7" 5] h7 p7
  have r7: "processRawEvent_body (countCalls sampleTracee) (5, 0) (?ev 7) =
      ((6, 1), [], Some (?ev 7))"
    by auto
  from h0 h1 h7 r0 r1 r7 show ?thesis
    by simp
qed

subsection \<open>The pipeline\<close>

text \<open>
  Every step either leaves the source positions of the events in the pipeline as they
  are, or takes one away: an event moves one place towards the sink, or is dropped.
\<close>

lemma held_shape:
  "xs @ held (map_option (Pair n) out) @ ys = xs @ n # ys \<or>
   xs @ held (map_option (Pair n) out) @ ys = xs @ ys"
  by (cases out) (simp_all add: held_def)

lemma shape_Decode:
  "positions (step t Decode p) = positions p \<or>
   (\<exists>xs n ys. positions p = xs @ n # ys \<and> positions (step t Decode p) = xs @ ys)"
proof (cases "eventsChannel p")
  case Nil
  then show ?thesis by simp
next
  case (Cons x rest)
  obtain n dataRaw where x: "x = (n, dataRaw)" by (cases x)
  let ?A = "map fst (printed p) @ map fst (printEventChan p) @ held (prepared p) @
    held (processedEventChan p)"
  show ?thesis
  proof (cases "decoderExited p \<or> rawEventChan p \<noteq> None")
    case True
    with Cons x show ?thesis by auto
  next
    case False
    then have free: "rawEventChan p = None" and alive: "\<not> decoderExited p"
      by blast+
    from free alive have old: "positions p = ?A @ n # map fst rest"
      using Cons x by (simp add: positions_def held_def)
    show ?thesis
    proof (cases "decodeRawEvent_body t dataRaw")
      case (Inl e)
      with free alive Cons x have "positions (step t Decode p) = positions p"
        by (simp add: positions_def)
      then show ?thesis by simp
    next
      case (Inr r)
      obtain errs out where r: "r = (errs, out)" by (cases r)
      from free alive Cons x Inr r
      have new: "positions (step t Decode p) = ?A @ held (map_option (Pair n) out) @ map fst rest"
        by (simp add: positions_def)
      show ?thesis
        unfolding new old using held_shape [of ?A n out "map fst rest"] by blast
    qed
  qed
qed

lemma shape_Process:
  "positions (step t Process p) = positions p \<or>
   (\<exists>xs n ys. positions p = xs @ n # ys \<and> positions (step t Process p) = xs @ ys)"
proof (cases "rawEventChan p")
  case None
  then show ?thesis by simp
next
  case (Some x)
  obtain n rawEvent where x: "x = (n, rawEvent)" by (cases x)
  let ?A = "map fst (printed p) @ map fst (printEventChan p) @ held (prepared p)"
  show ?thesis
  proof (cases "processorExited p \<or> processedEventChan p \<noteq> None")
    case True
    with Some x show ?thesis by auto
  next
    case False
    then have free: "processedEventChan p = None" and alive: "\<not> processorExited p"
      by blast+
    from free alive have old: "positions p = ?A @ n # map fst (eventsChannel p)"
      using Some x by (simp add: positions_def held_def)
    obtain s' errs out where r: "processRawEvent_body t (tracee p) rawEvent = (s', errs, out)"
      by (cases "processRawEvent_body t (tracee p) rawEvent")
    from free alive Some x r
    have new: "positions (step t Process p) =
        ?A @ held (map_option (Pair n) out) @ map fst (eventsChannel p)"
      by (simp add: positions_def) (simp add: held_def)
    show ?thesis
      unfolding new old using held_shape [of ?A n out "map fst (eventsChannel p)"] by blast
  qed
qed

lemma shape_Prepare:
  "positions (step t Prepare p) = positions p \<or>
   (\<exists>xs n ys. positions p = xs @ n # ys \<and> positions (step t Prepare p) = xs @ ys)"
proof (cases "processedEventChan p")
  case None
  then show ?thesis by simp
next
  case (Some x)
  obtain n rawEvent where x: "x = (n, rawEvent)" by (cases x)
  let ?A = "map fst (printed p) @ map fst (printEventChan p)"
  let ?B = "held (rawEventChan p) @ map fst (eventsChannel p)"
  show ?thesis
  proof (cases "preparerExited p \<or> prepared p \<noteq> None")
    case True
    with Some x show ?thesis by auto
  next
    case False
    then have free: "prepared p = None" and alive: "\<not> preparerExited p"
      by blast+
    from free alive have old: "positions p = ?A @ n # ?B"
      using Some x by (simp add: positions_def held_def)
    show ?thesis
    proof (cases "prepareEventForPrint_body t (tracee p) rawEvent")
      case (Inl e)
      with free alive Some x have "positions (step t Prepare p) = positions p"
        by (simp add: positions_def)
      then show ?thesis by simp
    next
      case (Inr r)
      obtain s' errs out where r: "r = (s', errs, out)" by (cases r)
      from free alive Some x Inr r
      have new: "positions (step t Prepare p) = ?A @ held (map_option (Pair n) out) @ ?B"
        by (simp add: positions_def) (simp add: held_def)
      show ?thesis
        unfolding new old using held_shape [of ?A n out ?B] by blast
    qed
  qed
qed

lemma shape_Enqueue: "positions (step t Enqueue p) = positions p"
  by (cases "prepared p") (auto simp: positions_def held_def)

lemma shape_Print: "positions (step t Print p) = positions p"
  by (cases "printEventChan p") (auto simp: positions_def)

lemma shape_DecodeCancel:
  "positions (step t DecodeCancel p) = positions p \<or>
   (\<exists>xs n ys. positions p = xs @ n # ys \<and> positions (step t DecodeCancel p) = xs @ ys)"
proof (cases "doneClosed p \<and> rawEventChan p \<noteq> None")
  case False
  then show ?thesis by auto
next
  case True
  then obtain n x where "rawEventChan p = Some (n, x)" by auto
  with True
  have "positions p = (map fst (printed p) @ map fst (printEventChan p) @ held (prepared p) @
        held (processedEventChan p)) @ n # map fst (eventsChannel p)"
    and "positions (step t DecodeCancel p) = (map fst (printed p) @ map fst (printEventChan p) @
        held (prepared p) @ held (processedEventChan p)) @ map fst (eventsChannel p)"
    by (simp_all add: positions_def held_def)
  then show ?thesis by blast
qed

lemma shape_ProcessCancel:
  "positions (step t ProcessCancel p) = positions p \<or>
   (\<exists>xs n ys. positions p = xs @ n # ys \<and> positions (step t ProcessCancel p) = xs @ ys)"
proof (cases "doneClosed p \<and> processedEventChan p \<noteq> None")
  case False
  then show ?thesis by auto
next
  case True
  then obtain n x where "processedEventChan p = Some (n, x)" by auto
  with True
  have "positions p = (map fst (printed p) @ map fst (printEventChan p) @ held (prepared p)) @
        n # held (rawEventChan p) @ map fst (eventsChannel p)"
    and "positions (step t ProcessCancel p) = (map fst (printed p) @ map fst (printEventChan p) @
        held (prepared p)) @ held (rawEventChan p) @ map fst (eventsChannel p)"
    by (simp_all add: positions_def held_def)
  then show ?thesis by blast
qed

lemma shape_PrepareCancel:
  "positions (step t PrepareCancel p) = positions p \<or>
   (\<exists>xs n ys. positions p = xs @ n # ys \<and> positions (step t PrepareCancel p) = xs @ ys)"
proof (cases "doneClosed p \<and> prepared p \<noteq> None")
  case False
  then show ?thesis by auto
next
  case True
  then obtain n x where "prepared p = Some (n, x)" by auto
  with True
  have "positions p = (map fst (printed p) @ map fst (printEventChan p)) @
        n # held (processedEventChan p) @ held (rawEventChan p) @ map fst (eventsChannel p)"
    and "positions (step t PrepareCancel p) = (map fst (printed p) @ map fst (printEventChan p)) @
        held (processedEventChan p) @ held (rawEventChan p) @ map fst (eventsChannel p)"
    by (simp_all add: positions_def held_def)
  then show ?thesis by blast
qed

lemma shape_step:
  "positions (step t a p) = positions p \<or>
   (\<exists>xs n ys. positions p = xs @ n # ys \<and> positions (step t a p) = xs @ ys)"
proof (cases a)
  case Decode
  then show ?thesis using shape_Decode [of t p] by simp
next
  case Process
  then show ?thesis using shape_Process [of t p] by simp
next
  case Prepare
  then show ?thesis using shape_Prepare [of t p] by simp
next
  case Enqueue
  then show ?thesis by (simp only: shape_Enqueue simp_thms)
next
  case Print
  then show ?thesis by (simp only: shape_Print simp_thms)
next
  case DecodeCancel
  then show ?thesis using shape_DecodeCancel [of t p] by simp
next
  case ProcessCancel
  then show ?thesis using shape_ProcessCancel [of t p] by simp
next
  case PrepareCancel
  then show ?thesis using shape_PrepareCancel [of t p] by simp
qed (simp_all add: positions_def)

text \<open>
  So the positions, read from the sink back to the source, stay strictly increasing, and
  no position appears that was not there.
\<close>

lemma positions_step:
  assumes "sorted_wrt (<) (positions p)"
  shows "sorted_wrt (<) (positions (step t a p))"
proof -
  from shape_step [of t a p] consider "positions (step t a p) = positions p"
    | xs n ys where "positions p = xs @ n # ys" and "positions (step t a p) = xs @ ys"
    by blast
  then show ?thesis
  proof cases
    case 1
    with assms show ?thesis by simp
  next
    case 2
    with assms show ?thesis by (simp add: sorted_wrt_append)
  qed
qed

lemma positions_step_subset: "set (positions (step t a p)) \<subseteq> set (positions p)"
  using shape_step [of t a p] by auto

lemma positions_run:
  "sorted_wrt (<) (positions p) \<Longrightarrow> sorted_wrt (<) (positions (run t sched p))"
  by (induction sched arbitrary: p) (simp_all add: positions_step)

lemma positions_run_subset: "set (positions (run t sched p)) \<subseteq> set (positions p)"
proof (induction sched arbitrary: p)
  case Nil
  then show ?case by simp
next
  case (Cons a sched)
  show ?case
  proof (cases "crashed p \<noteq> None")
    case True
    then show ?thesis by simp
  next
    case False
    have "set (positions (run t sched (step t a p))) \<subseteq> set (positions (step t a p))"
      by (rule Cons.IH)
    also have "\<dots> \<subseteq> set (positions p)"
      by (rule positions_step_subset)
    finally show ?thesis
      using False by simp
  qed
qed

lemma positions_start: "positions (start s source) = [0..<length source]"
  by (simp add: positions_def start_def held_def)

lemma printed_run_sorted:
  "sorted_wrt (<) (map fst (printed (run t sched (start s source))))"
proof -
  have "sorted_wrt (<) (positions (run t sched (start s source)))"
    by (rule positions_run) (simp add: positions_start)
  then show ?thesis
    by (simp add: positions_def sorted_wrt_append)
qed

lemma printed_run_bound:
  assumes "i < length (printed (run t sched (start s source)))"
  shows "fst (printed (run t sched (start s source)) ! i) < length source"
proof -
  let ?p = "run t sched (start s source)"
  from assms have "printed ?p ! i \<in> set (printed ?p)"
    by (rule nth_mem)
  then have "fst (printed ?p ! i) \<in> fst ` set (printed ?p)"
    by (rule imageI)
  then have "fst (printed ?p ! i) \<in> set (positions ?p)"
    by (simp add: positions_def)
  from subsetD [OF positions_run_subset this] show ?thesis
    by (simp add: positions_start)
qed
text \<open>
  C10. In every run of the pipeline, under any schedule of its goroutines and with
  cancellation at any moment, the events are printed in the order of their raw buffers
  in the source: if the event printed at place \<open>i\<close> comes from an earlier buffer than the
  event printed at place \<open>j\<close>, then \<open>i < j\<close> (and both come from buffers of the source).
  Dropped events are not in the list and do not change the order of the others.
\<close>

theorem survivors_print_in_source_order:
  assumes "p = run t sched (start s source)"
    and "i < length (printed p)" and "j < length (printed p)"
    and "fst (printed p ! i) < fst (printed p ! j)"
  shows "i < j \<and> fst (printed p ! j) < length source"
proof -
  have "i < j"
  proof (rule ccontr)
    assume "\<not> i < j"
    then consider "j < i" | "j = i" by linarith
    then show False
    proof cases
      case 1
      have "sorted_wrt (<) (map fst (printed p))"
        unfolding assms(1) by (rule printed_run_sorted)
      from sorted_wrt_nth_less [OF this 1] assms(2,3)
      have "fst (printed p ! j) < fst (printed p ! i)"
        by simp
      with assms(4) show False by simp
    next
      case 2
      with assms(4) show False by simp
    qed
  qed
  moreover have "fst (printed p ! j) < length source"
    using assms(3) unfolding assms(1) by (rule printed_run_bound)
  ultimately show ?thesis by simp
qed

theorem survivors_print_in_source_order_witness:
  "printed (run sampleTracee
      [Decode, Process, Prepare, Enqueue, Decode, Process, Decode, Print, Process, Prepare,
       Enqueue, Print]
      (start 0 [[7, 0, 0, 0, 0, 0], [0, 0, 0, 0, 0, 0], [9, 0, 0, 0, 0, 0]])) =
     [(0, \<lparr>Ts = 0, Pid = 0, Tid = 0, EventID = 7, Argnum = 0, StackID = [0, 0, 0, 0]\<rparr>,
          [], [], ''''),
      (2, \<lparr>Ts = 0, Pid = 0, Tid = 0, EventID = 9, Argnum = 0, StackID = [0, 0, 0, 0]\<rparr>,
          [], [], '''')] \<and>
   (0 :: nat) < 1 \<and> (2 :: nat) < length [[7, 0, 0, 0, 0, 0], [0, 0, 0, 0, 0, 0], [9, 0, 0, 0, 0, 0 :: byte]]"
proof -
  let ?p = "run sampleTracee
      [Decode, Process, Prepare, Enqueue, Decode, Process, Decode, Print, Process, Prepare,
       Enqueue, Print]
      (start 0 [[7, 0, 0, 0, 0, 0], [0, 0, 0, 0, 0, 0], [9, 0, 0, 0, 0, 0]])"
  let ?ev = "\<lambda>k. \<lparr>Ctx = \<lparr>Ts = 0, Pid = 0, Tid = 0, EventID = k, Argnum = 0,
      StackID = [0, 0, 0, 0 :: byte]\<rparr>, RawArgs = (Map.empty :: argTag \<rightharpoonup> byte), ArgsTags = []\<rparr>"
  have d: "decodeRawEvent_body sampleTracee [7, 0, 0, 0, 0, 0] = Inr ([], Some (?ev 7))"
    "decodeRawEvent_body sampleTracee [0, 0, 0, 0, 0, 0] = Inr ([], Some (?ev 0))"
    "decodeRawEvent_body sampleTracee [9, 0, 0, 0, 0, 0] = Inr ([], Some (?ev 9))"
    by (simp_all add: decodeRawEvent_body_def sampleTracee_def)
  have r: "processRawEvent_body sampleTracee s (?ev 7) = (Suc s, [], Some (?ev 7))"
    "processRawEvent_body sampleTracee s (?ev 0) = (s, [], None)"
    "processRawEvent_body sampleTracee s (?ev 9) = (Suc s, [], Some (?ev 9))" for s
    by (simp_all add: processRawEvent_body_def sampleTracee_def)
  have q: "prepareEventForPrint_body sampleTracee s (?ev k) =
      Inr (s, [], Some (Ctx (?ev k), [], [], ''''))" for k s
    by (simp add: prepareEventForPrint_body_def buildArgs_def getStackTrace_def sampleTracee_def)
  have v: "printed ?p = [(0, Ctx (?ev 7), [], [], ''''), (2, Ctx (?ev 9), [], [], '''')]"
    by (simp add: start_def d r q)
  have h: "0 < length (printed ?p)" "1 < length (printed ?p)"
    "fst (printed ?p ! 0) < fst (printed ?p ! 1)"
    unfolding v by simp_all
  from survivors_print_in_source_order [OF refl h] show ?thesis
    unfolding v by simp
qed
text \<open>
  End to end, on the concrete instance: one raw buffer with event identifier 7, two valid
  arguments and a stack identifier that the table does not hold gives exactly one printed
  event, with its two named arguments in the order of the buffer and an empty stack
  trace; no error is sent and the counter is 1.
\<close>

theorem one_buffer_end_to_end:
  "printed (run sampleTracee [Decode, Process, Prepare, Enqueue, Print]
      (start 0 [[7, 2, 0, 0, 0, 0, 2, 20, 1, 10]])) =
     [(0, \<lparr>Ts = 0, Pid = 0, Tid = 0, EventID = 7, Argnum = 2, StackID = [0, 0, 0, 0]\<rparr>,
          [''count'', ''fd''], [Some 20, Some 10], '''')] \<and>
   handled (run sampleTracee [Decode, Process, Prepare, Enqueue, Print]
      (start 0 [[7, 2, 0, 0, 0, 0, 2, 20, 1, 10]])) = [] \<and>
   eventCounter (run sampleTracee [Decode, Process, Prepare, Enqueue, Print]
      (start 0 [[7, 2, 0, 0, 0, 0, 2, 20, 1, 10]])) = 1"
proof -
  let ?ctx = "\<lparr>Ts = 0, Pid = 0, Tid = 0, EventID = 7, Argnum = 2, StackID = [0, 0, 0, 0 :: byte]\<rparr>"
  let ?ev = "\<lparr>Ctx = ?ctx, RawArgs = [2 \<mapsto> 20, 1 \<mapsto> 10 :: byte], ArgsTags = [2, 1 :: argTag]\<rparr>"
  have h: "readContext sampleTracee [7, 2, 0, 0, 0, 0, 2, 20, 1, 10] = Inr (?ctx, [2, 20, 1, 10])"
    by (simp add: sampleTracee_def)
  have w: "wireArgs (readArgFromBuff sampleTracee) (Argnum ?ctx) [2, 20, 1, 10] =
      [Inr (2, 20), Inr (1, 10)]"
    by (simp add: sampleTracee_def wireArgs_numeral)
  have d: "decodeRawEvent_body sampleTracee [7, 2, 0, 0, 0, 0, 2, 20, 1, 10] = Inr ([], Some ?ev)"
    unfolding decodeRawEvent_body_wire [OF h] w by simp
  have r: "processRawEvent_body sampleTracee s ?ev = (Suc s, [], Some ?ev)" for s
    by (simp add: processRawEvent_body_def sampleTracee_def)
  have q: "prepareEventForPrint_body sampleTracee s ?ev =
      Inr (s, [], Some (?ctx, [''count'', ''fd''], [Some 20, Some 10], ''''))" for s
    by (simp add: prepareEventForPrint_body_def buildArgs_fits getStackTrace_def slotName_def
        sampleTracee_def signed_modulo_int_def)
  show ?thesis
    by (simp add: start_def d r q)
qed

end
